theory Spec2Isabelle
  imports Main "HOL-Library.AList"
begin

section \<open>The notebooks as syntax\<close>

text \<open>
  The repository consists of two Jupyter notebooks, \<^verbatim>\<open>file-access.ipynb\<close> and
  \<^verbatim>\<open>README.ipynb\<close>. Their code cells are straight-line IPython: Python statements
  made of attribute accesses and calls, \<^verbatim>\<open>!\<close> shell escapes and \<^verbatim>\<open>%%sh\<close> cells.
  They are embedded as abstract syntax, one constant per code cell, in the order of the
  notebook.
\<close>

datatype expr =
    Str string
  | Num int
  | PyTrue
  | Name string
  | Attr expr string
  | Call expr "expr list"
  | Kw string expr

text \<open>A shell word is literal text or a parameter expansion \<^verbatim>\<open>${NAME}\<close>.\<close>

datatype word = Lit string | Ref string

datatype sh =
    ShComment string
  | ShAssign string string
  | ShCmd string "word list" "word option"

datatype stmt =
    Comment string
  | Import string
  | ImportAs string string
  | FromImport string string
  | Assign string expr
  | ExprStmt expr
  | Bang "sh list"

datatype cell = Py "stmt list" | ShMagic "sh list"

abbreviation meth :: "expr \<Rightarrow> string \<Rightarrow> expr list \<Rightarrow> expr" where
  "meth r m args \<equiv> Call (Attr r m) args"

abbreviation os_path_join :: "expr \<Rightarrow> expr \<Rightarrow> expr" where
  "os_path_join a b \<equiv> meth (Attr (Name ''os'') ''path'') ''join'' [a, b]"

subsection \<open>file-access.ipynb\<close>

definition fa_cell1 :: cell where
  \<open>fa_cell1 = Py
    [ImportAs ''pandas'' ''pd'',
     ImportAs ''v3io_frames'' ''v3f'',
     Import ''os'']\<close>

definition fa_cell2 :: cell where
  \<open>fa_cell2 = Py
    [Comment ''Create a Frames client'',
     Assign ''client''
       (meth (Name ''v3f'') ''Client'' [Str ''framesd:8081'', Kw ''container'' (Str ''users'')])]\<close>

definition fa_cell3 :: cell where
  \<open>fa_cell3 = Py
    [Comment ''Relative sample-directory path'',
     Assign ''sample_dir'' (os_path_join (Str ''examples'') (Str ''stocks'')),
     Comment ''Full sample-directory path in file-system format'',
     Assign ''sample_dir_path'' (os_path_join (Str ''/User'') (Name ''sample_dir'')),
     Comment ''Full sample-directory path in URL format (used by Spark DataFrames)'',
     Comment ''($V3IO_HOME_URL <=> v3io://users/<running user>)'',
     Assign ''sample_dir_url_path''
       (os_path_join (meth (Name ''os'') ''getenv'' [Str ''V3IO_HOME_URL'']) (Name ''sample_dir''))]\<close>

definition fa_cell4 :: cell where
  \<open>fa_cell4 = Py
    [Comment ''Create the sample directory'',
     Bang [ShCmd ''mkdir'' [Lit ''-p'', Lit ''/User/examples/stocks''] None,
           ShComment ''/User <=> /v3io/${V3IO_HOME} <=> /v3io/users/${V3IO_USERNAME}'']]\<close>

definition fa_cell5 :: cell where
  \<open>fa_cell5 = ShMagic
    [ShComment ''Download a sample CSV file from an AWS S3 bucket to a platform data container'',
     ShCmd ''curl''
       [Lit ''-L'', Lit ''https://s3.wasabisys.com/iguazio/data/stocks/2018-03-26_BINS_XETR08.csv'']
       (Some (Lit ''/User/examples/stocks/stocks_example.csv''))]\<close>

definition fa_cell6 :: cell where
  \<open>fa_cell6 = Py
    [Comment ''Read a CSV file from a platform data container into a pandas DataFrame'',
     Assign ''df''
       (meth (Name ''pd'') ''read_csv''
          [os_path_join (Name ''sample_dir_path'') (Str ''stocks_example.csv'')]),
     Comment ''Set the DataFrame\'s index column'',
     ExprStmt (meth (Name ''df'') ''set_index'' [Str ''ISIN'', Kw ''inplace'' PyTrue]),
     Comment ''Display the DataFrame\'s head'',
     ExprStmt (meth (Name ''df'') ''head'' [])]\<close>

definition fa_cell7 :: cell where
  \<open>fa_cell7 = Py
    [Assign ''nosql_table'' (os_path_join (Name ''sample_dir'') (Str ''stocks_example_tab'')),
     ExprStmt (meth (Name ''client'') ''write''
       [Str ''nosql'', Name ''nosql_table'', Name ''df''])]\<close>

definition fa_cell8 :: cell where
  \<open>fa_cell8 = Py
    [FromImport ''pyspark.sql'' ''SparkSession'',
     Assign ''spark''
       (meth (meth (Attr (Name ''SparkSession'') ''builder'') ''appName''
                [Str ''Iguazio Data Science Platform file-access tutorial''])
             ''getOrCreate'' []),
     Comment ''Read the a CSV file from the platform\'s data store into a Spark DataFrame;'',
     Comment ''let Spark infer the file\'s data schema'',
     Assign ''df''
       (meth (meth (Attr (Name ''spark'') ''read'') ''option'' [Str ''header'', Str ''true''])
             ''csv'' [os_path_join (Name ''sample_dir_url_path'') (Str ''stocks_example.csv'')]),
     Comment ''Show the DataFrame data'',
     ExprStmt (meth (Name ''df'') ''show'' [])]\<close>

definition fa_cell9 :: cell where
  \<open>fa_cell9 = Py
    [Comment ''Write the DataFrame data to a NoSQL table in the platform\'s data store;'',
     Comment ''set the "ISIN" column as the table\'s primary-key attribute'',
     ExprStmt
       (meth (meth (meth (meth (meth (Attr (Name ''df'') ''write'')
                ''format'' [Str ''io.iguaz.v3io.spark.sql.kv''])
              ''mode'' [Str ''append''])
            ''option'' [Str ''key'', Str ''ISIN''])
          ''option'' [Str ''allow-overwrite-schema'', Str ''true''])
        ''save'' [os_path_join (Name ''sample_dir_url_path'') (Str ''stocks_tab_spark'')])]\<close>

definition fa_cell10 :: cell where
  \<open>fa_cell10 = Py
    [Comment ''Read data from a NoSQL table into a Spark DataFrame'',
     Assign ''myDF2''
       (meth (meth (meth (Attr (Name ''spark'') ''read'')
                ''format'' [Str ''io.iguaz.v3io.spark.sql.kv''])
              ''load'' [os_path_join (Name ''sample_dir_url_path'') (Str ''stocks_tab_spark'')])
          ''where'' [Str ''TradedVolume>20000''])]\<close>

definition fa_cell11 :: cell where
  \<open>fa_cell11 = Py
    [Comment ''Write data from a NoSQL Spark DataFrame to a CSV file'',
     ExprStmt
       (meth (meth (Attr (meth (Name ''myDF2'') ''coalesce'' [Num 1]) ''write'')
              ''mode'' [Str ''overwrite''])
          ''csv'' [os_path_join (Name ''sample_dir_url_path'') (Str ''stocks_high_volume.csv'')])]\<close>

definition fa_cell12 :: cell where
  \<open>fa_cell12 = Py
    [Bang [ShCmd ''ls'' [Lit ''-l'', Lit ''/User/examples/stocks/''] None]]\<close>

definition fa_cell13 :: cell where
  \<open>fa_cell13 = Py [Comment ''!rm -rf /User/examples/stocks/'']\<close>

definition fa_cell14 :: cell where
  \<open>fa_cell14 = Py [ExprStmt (meth (Name ''spark'') ''stop'' [])]\<close>

definition file_access :: "cell list" where
  "file_access =
    [fa_cell1, fa_cell2, fa_cell3, fa_cell4, fa_cell5, fa_cell6, fa_cell7,
     fa_cell8, fa_cell9, fa_cell10, fa_cell11, fa_cell12, fa_cell13, fa_cell14]"


subsection \<open>README.ipynb\<close>

definition readme_cell1 :: cell where
  \<open>readme_cell1 = ShMagic
    [ShAssign ''CSV_PATH'' ''/User/examples/stocks.csv'',
     ShCmd ''curl''
       [Lit ''-L'', Lit ''https://s3.wasabisys.com/iguazio/data/stocks/2018-03-26_BINS_XETR08.csv'']
       (Some (Ref ''CSV_PATH''))]\<close>

definition readme :: "cell list" where
  "readme = [readme_cell1]"


section \<open>The platform the cells run on\<close>

text \<open>
  Every cell calls into an external library or a shell command. The model below gives
  each of them the behaviour the notebook's narration, comments and stored output
  describe: a data store addressed through three kinds of name (the local mount
  \<^verbatim>\<open>/User\<close>, a \<^verbatim>\<open>v3io://\<close> URL, a path relative to a container), files,
  directories and key-value tables in it, and DataFrames as values of the kernel.
\<close>

type_synonym row = "string list"

datatype pandas_df =
  PandasDF (pd_index: "(string \<times> string list) option") (pd_columns: "string list")
    (pd_rows: "row list")

datatype spark_df = SparkDF (sp_columns: "string list") (sp_parts: "row list list")

text \<open>A key-value table: its schema and its items, each an item name with attributes.\<close>

datatype kv_table =
  KVTable (t_schema: "string list") (t_items: "(string \<times> (string \<times> string) list) list")

datatype node = File "row list" | Dir | Table kv_table

type_synonym store = "(string list \<times> node) list"

datatype error =
    NameError string
  | ModuleNotFoundError string
  | AttributeError string
  | TypeError string
  | KeyError string
  | FileNotFoundError string
  | EmptyDataError
  | CalledProcessError nat
  | AnalysisException string
  | FramesError string
  | SparkStopped
  | Unmodelled string

datatype val =
    VNone
  | VBool bool
  | VInt int
  | VStr string
  | VKw string val
  | VModule string
  | VClient string string
  | VPandas pandas_df
  | VBuilder
  | VSession
  | VReader "string option" "(string \<times> string) list"
  | VSpark spark_df
  | VWriter spark_df "string option" "string option" "(string \<times> string) list"

datatype api = Shell | Pandas | Frames | Spark

datatype event =
    Access api string
  | Exit string nat
  | Listing "(string \<times> bool) list"
  | Displayed "row list"

record world =
  py_env :: "string \<rightharpoonup> val"
  os_env :: "string \<rightharpoonup> string"
  dfs :: store
  web :: "string \<rightharpoonup> row list"
  spark_on :: bool
  spark_chunk :: nat
  sql_where :: "string \<Rightarrow> string list \<Rightarrow> (row \<Rightarrow> bool) option"
  events :: "event list"

definition emit :: "event \<Rightarrow> world \<Rightarrow> world" where
  "emit e w = w\<lparr>events := events w @ [e]\<rparr>"

subsection \<open>Paths\<close>

text \<open>\<^verbatim>\<open>os.path.join\<close> of two components, as \<^verbatim>\<open>posixpath\<close> defines it.\<close>

definition path_join :: "string \<Rightarrow> string \<Rightarrow> string" where
  "path_join a b =
     (if b \<noteq> [] \<and> hd b = CHR ''/'' then b
      else if a = [] \<or> last a = CHR ''/'' then a @ b
      else a @ ''/'' @ b)"

fun split_slash :: "string \<Rightarrow> string list" where
  "split_slash [] = [[]]"
| "split_slash (c # cs) =
     (if c = CHR ''/'' then [] # split_slash cs
      else (case split_slash cs of [] \<Rightarrow> [[c]] | x # xs \<Rightarrow> (c # x) # xs))"

definition components :: "string \<Rightarrow> string list" where
  "components p = filter (\<lambda>s. s \<noteq> []) (split_slash p)"

text \<open>
  The cell that creates the sample directory notes
  \<^verbatim>\<open>/User <=> /v3io/${V3IO_HOME} <=> /v3io/users/${V3IO_USERNAME}\<close>: a local path
  under \<^verbatim>\<open>/User\<close> names the object at the same path under the running user's home
  directory. A key of the store is the list of path components from the container on.
\<close>

definition resolve_local :: "world \<Rightarrow> string \<Rightarrow> string list option" where
  "resolve_local w p =
     (case components p of
        [] \<Rightarrow> None
      | c # rest \<Rightarrow>
          if hd p = CHR ''/'' \<and> c = ''User''
          then map_option (\<lambda>h. components h @ rest) (os_env w ''V3IO_HOME'')
          else None)"

definition resolve_url :: "string \<Rightarrow> string list option" where
  "resolve_url p = (if take 7 p = ''v3io://'' then Some (components (drop 7 p)) else None)"

subsection \<open>The data store\<close>

definition is_dir :: "node option \<Rightarrow> bool" where
  "is_dir n = (case n of Some Dir \<Rightarrow> True | Some (Table t) \<Rightarrow> True | _ \<Rightarrow> False)"

text \<open>
  \<^verbatim>\<open>mkdir -p\<close>: walk the path from \<open>base\<close>, create what is missing, leave directories
  alone, fail on a component that exists and is not a directory.
\<close>

fun mkdirs :: "store \<Rightarrow> string list \<Rightarrow> string list \<Rightarrow> store option" where
  "mkdirs s base [] = Some s"
| "mkdirs s base (c # cs) =
     (case map_of s (base @ [c]) of
        None \<Rightarrow> mkdirs (AList.update (base @ [c]) Dir s) (base @ [c]) cs
      | Some n \<Rightarrow> if is_dir (Some n) then mkdirs s (base @ [c]) cs else None)"

definition beneath :: "string list \<Rightarrow> string list \<Rightarrow> bool" where
  "beneath k p = (take (length k) p = k)"

definition remove_tree :: "store \<Rightarrow> string list \<Rightarrow> store" where
  "remove_tree s k = filter (\<lambda>(p, n). \<not> beneath k p) s"

definition children :: "store \<Rightarrow> string list \<Rightarrow> (string \<times> node) list" where
  "children s k = map (\<lambda>(p, n). (last p, n)) (filter (\<lambda>(p, n). p \<noteq> [] \<and> butlast p = k) s)"

fun show_nat :: "nat \<Rightarrow> string" where
  "show_nat n =
     (if n < 10 then [char_of (48 + n)]
      else show_nat (n div 10) @ [char_of (48 + n mod 10)])"


fun position :: "'a \<Rightarrow> 'a list \<Rightarrow> nat option" where
  "position x [] = None"
| "position x (y # ys) = (if x = y then Some 0 else map_option Suc (position x ys))"

definition cell_at :: "nat \<Rightarrow> row \<Rightarrow> string" where
  "cell_at i r = (if i < length r then r ! i else [])"

definition drop_nth :: "nat \<Rightarrow> 'a list \<Rightarrow> 'a list" where
  "drop_nth i r = take i r @ drop (Suc i) r"

definition fit :: "nat \<Rightarrow> row \<Rightarrow> row" where
  "fit n r = take n (r @ replicate (n - length r) [])"

subsection \<open>Key-value tables\<close>

text \<open>
  Writing items to a table puts each item under its name: an item of the same name is
  replaced. Columns that the table's schema does not have yet are added to it.
\<close>

definition put_items ::
  "string list \<Rightarrow> (string \<times> (string \<times> string) list) list \<Rightarrow> kv_table \<Rightarrow> kv_table" where
  "put_items cols its t =
     KVTable (t_schema t @ filter (\<lambda>c. c \<notin> set (t_schema t)) cols)
             (fold (\<lambda>(k, a). AList.update k a) its (t_items t))"

text \<open>
  The narration of the \<^verbatim>\<open>ls\<close> cell: "Platform NoSQL tables appear as directories in
  the platform's local file system". A table is written at a path whose parent
  directories are created as needed; a directory at the path is a table without items.
\<close>

definition write_table ::
  "store \<Rightarrow> string list \<Rightarrow> string list \<Rightarrow> (string \<times> (string \<times> string) list) list \<Rightarrow> bool
     \<Rightarrow> store option" where
  "write_table s k cols its replace =
     (case mkdirs s [] (butlast k) of
        None \<Rightarrow> None
      | Some s' \<Rightarrow>
          (case map_of s' k of
             None \<Rightarrow> Some (AList.update k (Table (put_items cols its (KVTable [] []))) s')
           | Some Dir \<Rightarrow> Some (AList.update k (Table (put_items cols its (KVTable [] []))) s')
           | Some (Table t) \<Rightarrow>
               Some (AList.update k
                 (Table (put_items cols its (if replace then KVTable [] [] else t))) s')
           | Some (File c) \<Rightarrow> None))"

definition table_rows :: "kv_table \<Rightarrow> row list" where
  "table_rows t =
     map (\<lambda>(k, a). map (\<lambda>c. case map_of a c of None \<Rightarrow> [] | Some v \<Rightarrow> v) (t_schema t))
       (t_items t)"

subsection \<open>pandas\<close>

definition pd_read_csv :: "world \<Rightarrow> string \<Rightarrow> error + (val \<times> world)" where
  "pd_read_csv w p =
     (case resolve_local w p of
        None \<Rightarrow> Inl (FileNotFoundError p)
      | Some k \<Rightarrow>
          (case map_of (dfs w) k of
             Some (File []) \<Rightarrow> Inl EmptyDataError
           | Some (File (h # rs)) \<Rightarrow>
               Inr (VPandas (PandasDF None h rs), emit (Access Pandas p) w)
           | _ \<Rightarrow> Inl (FileNotFoundError p)))"

definition pd_set_index :: "string \<Rightarrow> pandas_df \<Rightarrow> pandas_df option" where
  "pd_set_index c d =
     (case position c (pd_columns d) of
        None \<Rightarrow> None
      | Some i \<Rightarrow>
          Some (PandasDF (Some (c, map (cell_at i) (pd_rows d)))
                  (drop_nth i (pd_columns d)) (map (drop_nth i) (pd_rows d))))"

definition pd_head :: "pandas_df \<Rightarrow> pandas_df" where
  "pd_head d =
     PandasDF (map_option (\<lambda>(n, ix). (n, take 5 ix)) (pd_index d)) (pd_columns d)
       (take 5 (pd_rows d))"

text \<open>
  \<^verbatim>\<open>inplace=True\<close> changes the object the receiver names; the model rebinds the name.
\<close>

fun rebind :: "expr \<Rightarrow> val \<Rightarrow> world \<Rightarrow> world" where
  "rebind (Name x) v w = w\<lparr>py_env := (py_env w)(x \<mapsto> v)\<rparr>"
| "rebind _ v w = w"

definition pandas_method ::
  "world \<Rightarrow> expr \<Rightarrow> pandas_df \<Rightarrow> string \<Rightarrow> val list \<Rightarrow> error + (val \<times> world)" where
  "pandas_method w e d m vs =
     (if m = ''set_index'' then
        (case vs of
           [VStr c, VKw k (VBool b)] \<Rightarrow>
             if k = ''inplace'' \<and> b then
               (case pd_set_index c d of
                  None \<Rightarrow> Inl (KeyError c)
                | Some d' \<Rightarrow> Inr (VNone, rebind e (VPandas d') w))
             else Inl (Unmodelled ''set_index'')
         | _ \<Rightarrow> Inl (Unmodelled ''set_index''))
      else if m = ''head'' then
        (case vs of [] \<Rightarrow> Inr (VPandas (pd_head d), w) | _ \<Rightarrow> Inl (Unmodelled ''head''))
      else Inl (AttributeError m))"

subsection \<open>The Frames client\<close>

definition frames_items :: "string \<Rightarrow> string list \<Rightarrow> pandas_df
    \<Rightarrow> (string \<times> (string \<times> string) list) list" where
  "frames_items iname ivals d =
     map (\<lambda>(k, r). (k, (iname, k) # zip (pd_columns d) r)) (zip ivals (pd_rows d))"

definition frames_method ::
  "world \<Rightarrow> string \<Rightarrow> string \<Rightarrow> val list \<Rightarrow> error + (val \<times> world)" where
  "frames_method w container m vs =
     (if m = ''write'' then
        (case vs of
           [VStr backend, VStr table, VPandas d] \<Rightarrow>
             if backend = ''nosql'' \<or> backend = ''kv'' then
               (case pd_index d of
                  None \<Rightarrow> Inl (Unmodelled ''Frames write of a DataFrame without an index column'')
                | Some (iname, ivals) \<Rightarrow>
                    (case write_table (dfs w) (container # components table)
                            (iname # pd_columns d) (frames_items iname ivals d) False of
                       None \<Rightarrow> Inl (FramesError table)
                     | Some s \<Rightarrow> Inr (VNone, emit (Access Frames table) (w\<lparr>dfs := s\<rparr>))))
             else Inl (Unmodelled backend)
         | _ \<Rightarrow> Inl (TypeError ''write''))
      else Inl (AttributeError m))"


subsection \<open>Spark\<close>

text \<open>
  A Spark DataFrame is a list of columns and the rows of each of its partitions. How
  many rows go into a partition when data is read is the platform's choice
  (\<open>spark_chunk\<close>). The meaning of a condition string is Spark SQL's (\<open>sql_where\<close>).
  Spark evaluates a DataFrame when an action needs it; the model evaluates it where it
  is defined, which gives the same rows as long as no cell in between writes to the
  source.
\<close>

fun chunks :: "nat \<Rightarrow> 'a list \<Rightarrow> 'a list list" where
  "chunks n [] = []"
| "chunks n (x # xs) = take (max 1 n) (x # xs) # chunks n (drop (max 1 n) (x # xs))"

definition coalesce :: "nat \<Rightarrow> 'a list list \<Rightarrow> 'a list list" where
  "coalesce n parts =
     (if length parts \<le> n then parts
      else map concat (chunks ((length parts + n - 1) div n) parts))"

definition kv_format :: string where
  "kv_format = ''io.iguaz.v3io.spark.sql.kv''"

definition spark_read ::
  "world \<Rightarrow> string option \<Rightarrow> (string \<times> string) list \<Rightarrow> string \<Rightarrow> error + (val \<times> world)" where
  "spark_read w f os p =
     (if \<not> spark_on w then Inl SparkStopped
      else case resolve_url p of
        None \<Rightarrow> Inl (AnalysisException p)
      | Some k \<Rightarrow>
          if f = Some ''csv'' then
            (case map_of (dfs w) k of
               Some (File ls) \<Rightarrow>
                 if map_of os ''header'' = Some ''true'' then
                   (case ls of
                      [] \<Rightarrow> Inr (VSpark (SparkDF [] []), emit (Access Spark p) w)
                    | h # rs \<Rightarrow>
                        Inr (VSpark (SparkDF h (chunks (spark_chunk w) (map (fit (length h)) rs))),
                             emit (Access Spark p) w))
                 else Inl (Unmodelled ''csv without header'')
             | _ \<Rightarrow> Inl (AnalysisException p))
          else if f = Some kv_format then
            (case map_of (dfs w) k of
               Some (Table t) \<Rightarrow>
                 Inr (VSpark (SparkDF (t_schema t) (chunks (spark_chunk w) (table_rows t))),
                      emit (Access Spark p) w)
             | _ \<Rightarrow> Inl (AnalysisException p))
          else Inl (Unmodelled ''format''))"

definition part_files :: "string list \<Rightarrow> row list list \<Rightarrow> store" where
  "part_files k parts =
     map (\<lambda>(i, rs). (k @ [''part-'' @ show_nat i], File rs)) (zip [0 ..< length parts] parts)"

text \<open>
  A CSV write makes a directory at the target path, with one file per partition and a
  marker file; the \<^verbatim>\<open>overwrite\<close> mode removes what is at the path first.
\<close>

definition write_csv_dir :: "store \<Rightarrow> string list \<Rightarrow> row list list \<Rightarrow> store option" where
  "write_csv_dir s k parts =
     (case mkdirs (remove_tree s k) [] k of
        None \<Rightarrow> None
      | Some s' \<Rightarrow> Some (s' @ part_files k parts @ [(k @ [''_SUCCESS''], File [])]))"

definition spark_write ::
  "world \<Rightarrow> spark_df \<Rightarrow> string option \<Rightarrow> string option \<Rightarrow> (string \<times> string) list \<Rightarrow> string
     \<Rightarrow> error + (val \<times> world)" where
  "spark_write w d f md os p =
     (if \<not> spark_on w then Inl SparkStopped
      else case resolve_url p of
        None \<Rightarrow> Inl (AnalysisException p)
      | Some k \<Rightarrow>
          if f = Some kv_format then
            (case map_of os ''key'' of
               None \<Rightarrow> Inl (AnalysisException ''key'')
             | Some kc \<Rightarrow>
                 (case position kc (sp_columns d) of
                    None \<Rightarrow> Inl (AnalysisException kc)
                  | Some i \<Rightarrow>
                      if md = Some ''append'' \<or> md = Some ''overwrite'' then
                        (case write_table (dfs w) k (sp_columns d)
                                (map (\<lambda>r. (cell_at i r, zip (sp_columns d) r)) (concat (sp_parts d)))
                                (md = Some ''overwrite'') of
                           None \<Rightarrow> Inl (AnalysisException p)
                         | Some s \<Rightarrow> Inr (VNone, emit (Access Spark p) (w\<lparr>dfs := s\<rparr>)))
                      else Inl (Unmodelled ''save mode'')))
          else if f = Some ''csv'' then
            (if md = Some ''overwrite'' then
               (case write_csv_dir (dfs w) k (sp_parts d) of
                  None \<Rightarrow> Inl (AnalysisException p)
                | Some s \<Rightarrow> Inr (VNone, emit (Access Spark p) (w\<lparr>dfs := s\<rparr>)))
             else Inl (Unmodelled ''save mode''))
          else Inl (Unmodelled ''format''))"

definition spark_df_method ::
  "world \<Rightarrow> spark_df \<Rightarrow> string \<Rightarrow> val list \<Rightarrow> error + (val \<times> world)" where
  "spark_df_method w d m vs =
     (if m = ''show'' then
        (case vs of
           [] \<Rightarrow> Inr (VNone, emit (Displayed (take 20 (concat (sp_parts d)))) w)
         | _ \<Rightarrow> Inl (Unmodelled ''show''))
      else if m = ''where'' then
        (case vs of
           [VStr c] \<Rightarrow>
             (case sql_where w c (sp_columns d) of
                None \<Rightarrow> Inl (AnalysisException c)
              | Some P \<Rightarrow> Inr (VSpark (SparkDF (sp_columns d) (map (filter P) (sp_parts d))), w))
         | _ \<Rightarrow> Inl (Unmodelled ''where''))
      else if m = ''coalesce'' then
        (case vs of
           [VInt n] \<Rightarrow>
             if n \<le> 0 then Inl (AnalysisException ''coalesce'')
             else Inr (VSpark (SparkDF (sp_columns d) (coalesce (nat n) (sp_parts d))), w)
         | _ \<Rightarrow> Inl (TypeError ''coalesce''))
      else Inl (AttributeError m))"

definition reader_method ::
  "world \<Rightarrow> string option \<Rightarrow> (string \<times> string) list \<Rightarrow> string \<Rightarrow> val list
     \<Rightarrow> error + (val \<times> world)" where
  "reader_method w f os m vs =
     (if m = ''format'' then
        (case vs of [VStr f'] \<Rightarrow> Inr (VReader (Some f') os, w) | _ \<Rightarrow> Inl (TypeError m))
      else if m = ''option'' then
        (case vs of
           [VStr k, VStr v] \<Rightarrow> Inr (VReader f (AList.update k v os), w)
         | _ \<Rightarrow> Inl (TypeError m))
      else if m = ''csv'' then
        (case vs of [VStr p] \<Rightarrow> spark_read w (Some ''csv'') os p | _ \<Rightarrow> Inl (TypeError m))
      else if m = ''load'' then
        (case vs of [VStr p] \<Rightarrow> spark_read w f os p | _ \<Rightarrow> Inl (TypeError m))
      else Inl (AttributeError m))"

definition writer_method ::
  "world \<Rightarrow> spark_df \<Rightarrow> string option \<Rightarrow> string option \<Rightarrow> (string \<times> string) list \<Rightarrow> string
     \<Rightarrow> val list \<Rightarrow> error + (val \<times> world)" where
  "writer_method w d f md os m vs =
     (if m = ''format'' then
        (case vs of [VStr f'] \<Rightarrow> Inr (VWriter d (Some f') md os, w) | _ \<Rightarrow> Inl (TypeError m))
      else if m = ''mode'' then
        (case vs of [VStr md'] \<Rightarrow> Inr (VWriter d f (Some md') os, w) | _ \<Rightarrow> Inl (TypeError m))
      else if m = ''option'' then
        (case vs of
           [VStr k, VStr v] \<Rightarrow> Inr (VWriter d f md (AList.update k v os), w)
         | _ \<Rightarrow> Inl (TypeError m))
      else if m = ''save'' then
        (case vs of [VStr p] \<Rightarrow> spark_write w d f md os p | _ \<Rightarrow> Inl (TypeError m))
      else if m = ''csv'' then
        (case vs of [VStr p] \<Rightarrow> spark_write w d (Some ''csv'') md os p | _ \<Rightarrow> Inl (TypeError m))
      else Inl (AttributeError m))"

definition session_method :: "world \<Rightarrow> string \<Rightarrow> val list \<Rightarrow> error + (val \<times> world)" where
  "session_method w m vs =
     (if m = ''stop'' then
        (case vs of [] \<Rightarrow> Inr (VNone, w\<lparr>spark_on := False\<rparr>) | _ \<Rightarrow> Inl (TypeError m))
      else Inl (AttributeError m))"

definition builder_method :: "world \<Rightarrow> string \<Rightarrow> val list \<Rightarrow> error + (val \<times> world)" where
  "builder_method w m vs =
     (if m = ''appName'' then
        (case vs of [VStr n] \<Rightarrow> Inr (VBuilder, w) | _ \<Rightarrow> Inl (TypeError m))
      else if m = ''getOrCreate'' then
        (case vs of [] \<Rightarrow> Inr (VSession, w\<lparr>spark_on := True\<rparr>) | _ \<Rightarrow> Inl (TypeError m))
      else Inl (AttributeError m))"


subsection \<open>Modules of the kernel\<close>

definition known_modules :: "string list" where
  "known_modules = [''pandas'', ''v3io_frames'', ''os'', ''pyspark.sql'']"

definition module_function ::
  "world \<Rightarrow> string \<Rightarrow> string \<Rightarrow> val list \<Rightarrow> error + (val \<times> world)" where
  "module_function w md f vs =
     (if md = ''os'' \<and> f = ''getenv'' then
        (case vs of
           [VStr k] \<Rightarrow> Inr ((case os_env w k of None \<Rightarrow> VNone | Some v \<Rightarrow> VStr v), w)
         | _ \<Rightarrow> Inl (TypeError f))
      else if md = ''os.path'' \<and> f = ''join'' then
        (case vs of
           [VStr a, VStr b] \<Rightarrow> Inr (VStr (path_join a b), w)
         | _ \<Rightarrow> Inl (TypeError f))
      else if md = ''pandas'' \<and> f = ''read_csv'' then
        (case vs of [VStr p] \<Rightarrow> pd_read_csv w p | _ \<Rightarrow> Inl (TypeError f))
      else if md = ''v3io_frames'' \<and> f = ''Client'' then
        (case vs of
           [VStr a, VKw k (VStr c)] \<Rightarrow>
             if k = ''container'' then Inr (VClient a c, w) else Inl (TypeError f)
         | _ \<Rightarrow> Inl (Unmodelled f))
      else Inl (AttributeError f))"

definition get_attr :: "world \<Rightarrow> val \<Rightarrow> string \<Rightarrow> error + (val \<times> world)" where
  "get_attr w v a =
     (case v of
        VModule md \<Rightarrow>
          if md = ''os'' \<and> a = ''path'' then Inr (VModule ''os.path'', w)
          else if md = ''pyspark.sql.SparkSession'' \<and> a = ''builder'' then Inr (VBuilder, w)
          else Inl (AttributeError a)
      | VSession \<Rightarrow>
          if a = ''read'' then
            (if spark_on w then Inr (VReader None [], w) else Inl SparkStopped)
          else Inl (AttributeError a)
      | VSpark d \<Rightarrow>
          if a = ''write'' then Inr (VWriter d None None [], w) else Inl (AttributeError a)
      | _ \<Rightarrow> Inl (AttributeError a))"

definition call_method ::
  "world \<Rightarrow> expr \<Rightarrow> val \<Rightarrow> string \<Rightarrow> val list \<Rightarrow> error + (val \<times> world)" where
  "call_method w e r m vs =
     (case r of
        VModule md \<Rightarrow> module_function w md m vs
      | VClient a c \<Rightarrow> frames_method w c m vs
      | VPandas d \<Rightarrow> pandas_method w e d m vs
      | VBuilder \<Rightarrow> builder_method w m vs
      | VSession \<Rightarrow> session_method w m vs
      | VReader f os \<Rightarrow> reader_method w f os m vs
      | VSpark d \<Rightarrow> spark_df_method w d m vs
      | VWriter d f md os \<Rightarrow> writer_method w d f md os m vs
      | _ \<Rightarrow> Inl (AttributeError m))"

subsection \<open>Expressions and statements\<close>

fun eval :: "world \<Rightarrow> expr \<Rightarrow> error + (val \<times> world)"
  and evals :: "world \<Rightarrow> expr list \<Rightarrow> error + (val list \<times> world)" where
  "eval w (Str s) = Inr (VStr s, w)"
| "eval w (Num n) = Inr (VInt n, w)"
| "eval w PyTrue = Inr (VBool True, w)"
| "eval w (Name x) = (case py_env w x of None \<Rightarrow> Inl (NameError x) | Some v \<Rightarrow> Inr (v, w))"
| "eval w (Kw k e) =
     (case eval w e of Inl er \<Rightarrow> Inl er | Inr (v, w') \<Rightarrow> Inr (VKw k v, w'))"
| "eval w (Attr e a) =
     (case eval w e of Inl er \<Rightarrow> Inl er | Inr (v, w') \<Rightarrow> get_attr w' v a)"
| "eval w (Call (Attr e m) args) =
     (case eval w e of
        Inl er \<Rightarrow> Inl er
      | Inr (r, w1) \<Rightarrow>
          (case evals w1 args of
             Inl er \<Rightarrow> Inl er
           | Inr (vs, w2) \<Rightarrow> call_method w2 e r m vs))"
| "eval w (Call f args) = Inl (Unmodelled ''call'')"
| "evals w [] = Inr ([], w)"
| "evals w (e # es) =
     (case eval w e of
        Inl er \<Rightarrow> Inl er
      | Inr (v, w1) \<Rightarrow>
          (case evals w1 es of Inl er \<Rightarrow> Inl er | Inr (vs, w2) \<Rightarrow> Inr (v # vs, w2)))"

subsection \<open>Shell commands\<close>

fun expand :: "(string \<rightharpoonup> string) \<Rightarrow> word \<Rightarrow> string" where
  "expand vars (Lit s) = s"
| "expand vars (Ref v) = (case vars v of None \<Rightarrow> [] | Some s \<Rightarrow> s)"

text \<open>
  A command gives an exit status, what it writes to its standard output, and the world
  after it.
\<close>

definition command :: "world \<Rightarrow> string \<Rightarrow> string list \<Rightarrow> nat \<times> row list \<times> world" where
  "command w prog args =
     (if prog = ''mkdir'' then
        (case args of
           [opt, p] \<Rightarrow>
             if opt = ''-p'' then
               (case resolve_local w p of
                  None \<Rightarrow> (1, [], emit (Access Shell p) w)
                | Some k \<Rightarrow>
                    (case mkdirs (dfs w) [] k of
                       None \<Rightarrow> (1, [], emit (Access Shell p) w)
                     | Some s \<Rightarrow> (0, [], emit (Access Shell p) (w\<lparr>dfs := s\<rparr>))))
             else (2, [], w)
         | _ \<Rightarrow> (2, [], w))
      else if prog = ''curl'' then
        (case args of
           [opt, url] \<Rightarrow>
             if opt = ''-L'' then
               (case web w url of None \<Rightarrow> (6, [], w) | Some c \<Rightarrow> (0, c, w))
             else (2, [], w)
         | _ \<Rightarrow> (2, [], w))
      else if prog = ''ls'' then
        (case args of
           [opt, p] \<Rightarrow>
             if opt = ''-l'' then
               (case resolve_local w p of
                  None \<Rightarrow> (2, [], emit (Access Shell p) w)
                | Some k \<Rightarrow>
                    if is_dir (map_of (dfs w) k) then
                      (0, [],
                       emit (Listing (map (\<lambda>(n, x). (n, is_dir (Some x))) (children (dfs w) k)))
                         (emit (Access Shell p) w))
                    else (2, [], emit (Access Shell p) w))
             else (2, [], w)
         | _ \<Rightarrow> (2, [], w))
      else if prog = ''rm'' then
        (case args of
           [opt, p] \<Rightarrow>
             if opt = ''-rf'' then
               (case resolve_local w p of
                  None \<Rightarrow> (0, [], emit (Access Shell p) w)
                | Some k \<Rightarrow> (0, [], emit (Access Shell p) (w\<lparr>dfs := remove_tree (dfs w) k\<rparr>)))
             else (2, [], w)
         | _ \<Rightarrow> (2, [], w))
      else (127, [], w))"

text \<open>
  \<^verbatim>\<open>cmd > file\<close>: the shell opens the file for writing before it runs the command,
  which needs the file's directory to exist and the path not to be a directory.
\<close>

definition open_write :: "world \<Rightarrow> string \<Rightarrow> (string list \<times> world) option" where
  "open_write w p =
     (case resolve_local w p of
        None \<Rightarrow> None
      | Some k \<Rightarrow>
          if k \<noteq> [] \<and> is_dir (map_of (dfs w) (butlast k)) \<and> \<not> is_dir (map_of (dfs w) k)
          then Some (k, emit (Access Shell p) (w\<lparr>dfs := AList.update k (File []) (dfs w)\<rparr>))
          else None)"

fun run_sh :: "world \<Rightarrow> (string \<rightharpoonup> string) \<Rightarrow> sh \<Rightarrow> nat \<times> (string \<rightharpoonup> string) \<times> world" where
  "run_sh w vars (ShComment c) = (0, vars, w)"
| "run_sh w vars (ShAssign x v) = (0, vars(x \<mapsto> v), w)"
| "run_sh w vars (ShCmd prog ws None) =
     (case command w prog (map (expand vars) ws) of
        (st, out, w') \<Rightarrow> (st, vars, emit (Exit prog st) w'))"
| "run_sh w vars (ShCmd prog ws (Some t)) =
     (case open_write w (expand vars t) of
        None \<Rightarrow> (1, vars, emit (Exit prog 1) w)
      | Some (k, w1) \<Rightarrow>
          (case command w1 prog (map (expand vars) ws) of
             (st, out, w2) \<Rightarrow>
               (st, vars, emit (Exit prog st) (w2\<lparr>dfs := AList.update k (File out) (dfs w2)\<rparr>))))"

text \<open>A script runs its commands one after the other; its status is the last one's.\<close>

fun run_script :: "world \<Rightarrow> (string \<rightharpoonup> string) \<Rightarrow> nat \<Rightarrow> sh list \<Rightarrow> nat \<times> world" where
  "run_script w vars st [] = (st, w)"
| "run_script w vars st (c # cs) =
     (case run_sh w vars c of (st', vars', w') \<Rightarrow> run_script w' vars' st' cs)"

subsection \<open>Cells\<close>

text \<open>
  A statement either raises, which ends the run, or gives the next world. A \<^verbatim>\<open>!\<close>
  line never raises, whatever the status of its command; a \<^verbatim>\<open>%%sh\<close> cell raises
  when its script ends with a status other than 0.
\<close>

fun exec_stmt :: "world \<Rightarrow> stmt \<Rightarrow> error + world" where
  "exec_stmt w (Comment c) = Inr w"
| "exec_stmt w (Import m) =
     (if m \<in> set known_modules then Inr (w\<lparr>py_env := (py_env w)(m \<mapsto> VModule m)\<rparr>)
      else Inl (ModuleNotFoundError m))"
| "exec_stmt w (ImportAs m a) =
     (if m \<in> set known_modules then Inr (w\<lparr>py_env := (py_env w)(a \<mapsto> VModule m)\<rparr>)
      else Inl (ModuleNotFoundError m))"
| "exec_stmt w (FromImport m n) =
     (if m = ''pyspark.sql'' \<and> n = ''SparkSession''
      then Inr (w\<lparr>py_env := (py_env w)(n \<mapsto> VModule (m @ ''.'' @ n))\<rparr>)
      else Inl (ModuleNotFoundError m))"
| "exec_stmt w (Assign x e) =
     (case eval w e of
        Inl er \<Rightarrow> Inl er
      | Inr (v, w') \<Rightarrow> Inr (w'\<lparr>py_env := (py_env w')(x \<mapsto> v)\<rparr>))"
| "exec_stmt w (ExprStmt e) =
     (case eval w e of Inl er \<Rightarrow> Inl er | Inr (v, w') \<Rightarrow> Inr w')"
| "exec_stmt w (Bang cmds) = Inr (snd (run_script w (os_env w) 0 cmds))"

fun exec_stmts :: "world \<Rightarrow> stmt list \<Rightarrow> error + world" where
  "exec_stmts w [] = Inr w"
| "exec_stmts w (s # ss) =
     (case exec_stmt w s of Inl er \<Rightarrow> Inl er | Inr w' \<Rightarrow> exec_stmts w' ss)"

fun exec_cell :: "world \<Rightarrow> cell \<Rightarrow> error + world" where
  "exec_cell w (Py ss) = exec_stmts w ss"
| "exec_cell w (ShMagic cmds) =
     (case run_script w (os_env w) 0 cmds of
        (st, w') \<Rightarrow> if st = 0 then Inr w' else Inl (CalledProcessError st))"

text \<open>Running cells in order stops at the first one that raises.\<close>

fun run :: "world \<Rightarrow> cell list \<Rightarrow> error + world" where
  "run w [] = Inr w"
| "run w (c # cs) = (case exec_cell w c of Inl er \<Rightarrow> Inl er | Inr w' \<Rightarrow> run w' cs)"


section \<open>A concrete platform\<close>

text \<open>
  A small instance of the platform to run the notebooks on: the home directory of a user
  \<^verbatim>\<open>iguazio\<close>, the five rows of the sample file that the notebook displays, and
  Spark SQL's reading of a condition of the form \<^verbatim>\<open>column>number\<close>.
\<close>

definition digit_of :: "char \<Rightarrow> nat option" where
  "digit_of c =
     (let n = (of_char c :: nat) in if 48 \<le> n \<and> n \<le> 57 then Some (n - 48) else None)"

fun parse_digits :: "nat \<Rightarrow> string \<Rightarrow> nat option" where
  "parse_digits acc [] = Some acc"
| "parse_digits acc (c # cs) =
     (case digit_of c of None \<Rightarrow> None | Some d \<Rightarrow> parse_digits (10 * acc + d) cs)"

definition parse_nat :: "string \<Rightarrow> nat option" where
  "parse_nat s = (if s = [] then None else parse_digits 0 s)"

text \<open>
  The columns of a CSV file that is read without \<^verbatim>\<open>inferSchema\<close> are strings, and so
  are the attributes of the table written from them. To compare a string with an integer
  literal, Spark SQL casts the string to a 32-bit integer: white space at both ends is
  dropped, a sign is read, then digits; a fraction after a point must be digits and is
  dropped. A string that is not of this form, or whose value does not fit in 32 bits,
  has no value, and a row without a value is not selected.
\<close>

definition is_space :: "char \<Rightarrow> bool" where
  "is_space c = ((of_char c :: nat) \<le> 32)"

definition trim :: "string \<Rightarrow> string" where
  "trim s = rev (dropWhile is_space (rev (dropWhile is_space s)))"

definition cast_int :: "string \<Rightarrow> int option" where
  "cast_int s =
     (let t = trim s;
          signed = (t \<noteq> [] \<and> (hd t = CHR ''-'' \<or> hd t = CHR ''+''));
          body = (if signed then tl t else t);
          whole = takeWhile (\<lambda>c. c \<noteq> CHR ''.'') body;
          fraction = drop (Suc (length whole)) body
      in if body = [] then None
         else case (parse_digits 0 whole, parse_digits 0 fraction) of
           (Some v, Some f) \<Rightarrow>
             if hd t = CHR ''-'' then (if v \<le> 2147483648 then Some (- int v) else None)
             else (if v < 2147483648 then Some (int v) else None)
         | _ \<Rightarrow> None)"

definition exceeds :: "nat \<Rightarrow> string \<Rightarrow> bool" where
  "exceeds n s = (case cast_int s of None \<Rightarrow> False | Some v \<Rightarrow> int n < v)"

text \<open>
  A condition \<^verbatim>\<open>column>number\<close>, with a number that is a 32-bit integer literal, on the
  columns of a DataFrame: the rows it selects.
\<close>

definition sql_gt :: "string \<Rightarrow> string list \<Rightarrow> (row \<Rightarrow> bool) option" where
  "sql_gt cond cols =
     (case dropWhile (\<lambda>c. c \<noteq> CHR ''>'') cond of
        [] \<Rightarrow> None
      | g # num \<Rightarrow>
          (case position (takeWhile (\<lambda>c. c \<noteq> CHR ''>'') cond) cols of
             None \<Rightarrow> None
           | Some i \<Rightarrow>
               (case parse_nat num of
                  None \<Rightarrow> None
                | Some n \<Rightarrow>
                    if n < 2147483648 then Some (\<lambda>r. exceeds n (cell_at i r)) else None)))"

definition sample_url :: string where
  "sample_url = ''https://s3.wasabisys.com/iguazio/data/stocks/2018-03-26_BINS_XETR08.csv''"

definition sample_csv :: "row list" where
  \<open>sample_csv =
    [[''ISIN'', ''Mnemonic'', ''SecurityDesc'', ''SecurityType'', ''Currency'', ''SecurityID'',
      ''Date'', ''Time'', ''StartPrice'', ''MaxPrice'', ''MinPrice'', ''EndPrice'',
      ''TradedVolume'', ''NumberOfTrades''],
     [''CH0038389992'', ''BBZA'', ''BB BIOTECH NAM.   SF 0,20'', ''Common stock'', ''EUR'',
      ''2504244'', ''2018-03-26'', ''08:00'', ''56.4'', ''56.4'', ''56.4'', ''56.4'', ''320'', ''4''],
     [''CH0038863350'', ''NESR'', ''NESTLE NAM.        SF-,10'', ''Common stock'', ''EUR'',
      ''2504245'', ''2018-03-26'', ''08:00'', ''63.04'', ''63.06'', ''63'', ''63.06'', ''314'', ''3''],
     [''LU0378438732'', ''C001'', ''COMSTAGE-DAX UCITS ETF I'', ''ETF'', ''EUR'',
      ''2504271'', ''2018-03-26'', ''08:00'', ''113.42'', ''113.42'', ''113.42'', ''113.42'',
      ''100'', ''1''],
     [''LU0411075020'', ''DBPD'', ''XTR.SHORTDAX X2 DA.SW. 1C'', ''ETF'', ''EUR'',
      ''2504272'', ''2018-03-26'', ''08:00'', ''4.1335'', ''4.1335'', ''4.1295'', ''4.13'',
      ''102993'', ''8''],
     [''LU0838782315'', ''XDDX'', ''XTR.DAX INCOME 1D'', ''ETF'', ''EUR'',
      ''2504277'', ''2018-03-26'', ''08:00'', ''105.14'', ''105.2'', ''105.14'', ''105.2'',
      ''239'', ''3'']]\<close>

definition demo_world :: world where
  "demo_world =
     \<lparr>py_env = Map.empty,
      os_env = [''V3IO_HOME'' \<mapsto> ''users/iguazio'', ''V3IO_HOME_URL'' \<mapsto> ''v3io://users/iguazio''],
      dfs = [([''users''], Dir), ([''users'', ''iguazio''], Dir)],
      web = [sample_url \<mapsto> sample_csv],
      spark_on = False,
      spark_chunk = 2,
      sql_where = sql_gt,
      events = []\<rparr>"


section \<open>What the cells call\<close>

text \<open>
  The chain of an expression: the name it starts from, then each attribute it reads and
  each method it calls, in the order Python evaluates them.
\<close>

datatype step = Root string | Get string | Invoke string "expr list"

fun spine :: "expr \<Rightarrow> step list" where
  "spine (Name x) = [Root x]"
| "spine (Attr e a) = spine e @ [Get a]"
| "spine (Call (Attr e m) args) = spine e @ [Invoke m args]"
| "spine e = []"

fun stmt_exprs :: "stmt \<Rightarrow> expr list" where
  "stmt_exprs (Assign x e) = [e]"
| "stmt_exprs (ExprStmt e) = [e]"
| "stmt_exprs s = []"

fun cell_exprs :: "cell \<Rightarrow> expr list" where
  "cell_exprs (Py ss) = concat (map stmt_exprs ss)"
| "cell_exprs (ShMagic cmds) = []"

fun cell_commands :: "cell \<Rightarrow> sh list" where
  "cell_commands (Py ss) = concat (map (\<lambda>s. case s of Bang cmds \<Rightarrow> cmds | _ \<Rightarrow> []) ss)"
| "cell_commands (ShMagic cmds) = cmds"

subsection \<open>Configuration and computation in the Spark conversions\<close>

fun atom :: "expr \<Rightarrow> bool" where
  "atom (Str s) = True"
| "atom (Num n) = True"
| "atom PyTrue = True"
| "atom (Name x) = True"
| "atom e = False"

fun path_expr :: "expr \<Rightarrow> bool" where
  "path_expr (Call (Attr (Attr (Name md) sub) f) [a, b]) =
     (md = ''os'' \<and> sub = ''path'' \<and> f = ''join'' \<and> atom a \<and> atom b)"
| "path_expr e = False"

text \<open>
  A configuration step hands Spark a format, a save mode, an option (the key column,
  the schema-overwrite flag, the header flag) or a path.
\<close>

fun config_step :: "step \<Rightarrow> bool" where
  "config_step (Root x) = True"
| "config_step (Get a) = (a = ''read'' \<or> a = ''write'')"
| "config_step (Invoke m args) =
     (if m = ''format'' \<or> m = ''mode'' then (case args of [Str s] \<Rightarrow> True | _ \<Rightarrow> False)
      else if m = ''option'' then (case args of [Str k, Str v] \<Rightarrow> True | _ \<Rightarrow> False)
      else if m = ''save'' \<or> m = ''load'' \<or> m = ''csv'' then
        (case args of [p] \<Rightarrow> path_expr p | _ \<Rightarrow> False)
      else False)"

definition config_only :: "expr \<Rightarrow> bool" where
  "config_only e = list_all config_step (spine e)"

definition non_config :: "expr \<Rightarrow> step list" where
  "non_config e = filter (\<lambda>s. \<not> config_step s) (spine e)"

text \<open>The conversions: the expressions that go through a Spark reader or writer.\<close>

definition spark_io :: "expr \<Rightarrow> bool" where
  "spark_io e = (Get ''read'' \<in> set (spine e) \<or> Get ''write'' \<in> set (spine e))"

definition conversions :: "expr list" where
  "conversions = filter spark_io (concat (map cell_exprs file_access))"

subsection \<open>Libraries and commands\<close>

text \<open>
  Which module a name comes from: an import binds a name to its module, an assignment
  binds the target to the module of the name its right-hand side starts from.
\<close>

fun root :: "expr \<Rightarrow> string option" where
  "root (Name x) = Some x"
| "root (Attr e a) = root e"
| "root (Call f args) = root f"
| "root e = None"

definition origin :: "(string \<rightharpoonup> string) \<Rightarrow> expr \<Rightarrow> string option" where
  "origin env e = (case root e of None \<Rightarrow> None | Some x \<Rightarrow> env x)"

fun calls :: "(string \<rightharpoonup> string) \<Rightarrow> expr \<Rightarrow> string option list" where
  "calls env (Call f args) = origin env f # calls env f @ concat (map (calls env) args)"
| "calls env (Attr e a) = calls env e"
| "calls env (Kw k e) = calls env e"
| "calls env e = []"

datatype kind = KComment | KImport string | KCall "string option" | KCommand string

fun sh_kinds :: "sh \<Rightarrow> kind list" where
  "sh_kinds (ShCmd prog ws redir) = [KCommand prog]"
| "sh_kinds c = []"

fun stmt_kinds :: "(string \<rightharpoonup> string) \<Rightarrow> stmt \<Rightarrow> kind list" where
  "stmt_kinds env (Comment c) = [KComment]"
| "stmt_kinds env (Import m) = [KImport m]"
| "stmt_kinds env (ImportAs m a) = [KImport m]"
| "stmt_kinds env (FromImport m n) = [KImport m]"
| "stmt_kinds env (Assign x e) = map KCall (calls env e)"
| "stmt_kinds env (ExprStmt e) = map KCall (calls env e)"
| "stmt_kinds env (Bang cmds) = concat (map sh_kinds cmds)"

fun track :: "(string \<rightharpoonup> string) \<Rightarrow> stmt \<Rightarrow> (string \<rightharpoonup> string)" where
  "track env (Import m) = env(m \<mapsto> m)"
| "track env (ImportAs m a) = env(a \<mapsto> m)"
| "track env (FromImport m n) = env(n \<mapsto> m)"
| "track env (Assign x e) = env(x := origin env e)"
| "track env s = env"

fun stmts_kinds :: "(string \<rightharpoonup> string) \<Rightarrow> stmt list \<Rightarrow> kind list \<times> (string \<rightharpoonup> string)" where
  "stmts_kinds env [] = ([], env)"
| "stmts_kinds env (s # ss) =
     (case stmts_kinds (track env s) ss of (ks, env') \<Rightarrow> (stmt_kinds env s @ ks, env'))"

fun cells_kinds :: "(string \<rightharpoonup> string) \<Rightarrow> cell list \<Rightarrow> kind list list" where
  "cells_kinds env [] = []"
| "cells_kinds env (Py ss # cs) =
     (case stmts_kinds env ss of (ks, env') \<Rightarrow> ks # cells_kinds env' cs)"
| "cells_kinds env (ShMagic cmds # cs) = concat (map sh_kinds cmds) # cells_kinds env cs"

text \<open>
  The claim's reading of a cell: a call into pandas, Spark, the Frames client, Presto,
  Dask or cuDF, or one of the commands curl, mkdir, ls and rm.
\<close>

definition sdk_modules :: "string list" where
  "sdk_modules = [''pandas'', ''pyspark.sql'', ''v3io_frames'', ''prestodb'', ''dask'', ''cudf'']"

definition sdk_commands :: "string list" where
  "sdk_commands = [''curl'', ''mkdir'', ''ls'', ''rm'']"

fun sdk_or_command :: "kind \<Rightarrow> bool" where
  "sdk_or_command (KCall (Some m)) = (m \<in> set sdk_modules)"
| "sdk_or_command (KCommand p) = (p \<in> set sdk_commands)"
| "sdk_or_command k = False"

definition cell_is_sdk_call :: "kind list \<Rightarrow> bool" where
  "cell_is_sdk_call ks =
     (filter (\<lambda>k. k \<noteq> KComment) ks \<noteq> [] \<and>
      list_all sdk_or_command (filter (\<lambda>k. k \<noteq> KComment) ks))"

text \<open>What the cells are made of: comments, imports and calls into \<^verbatim>\<open>os\<close> as well.\<close>

fun cell_part :: "kind \<Rightarrow> bool" where
  "cell_part KComment = True"
| "cell_part (KImport m) = (m \<in> set [''pandas'', ''pyspark.sql'', ''v3io_frames'', ''os''])"
| "cell_part (KCall (Some m)) = (m \<in> set [''pandas'', ''pyspark.sql'', ''v3io_frames'', ''os''])"
| "cell_part (KCall None) = False"
| "cell_part (KCommand p) = (p \<in> set [''curl'', ''mkdir'', ''ls''])"

subsection \<open>The stores an operation names\<close>

datatype store_kind = ObjectStore | FileSystem | NoSQLTable | CSVFile | ParquetHive

definition starts_with :: "string \<Rightarrow> string \<Rightarrow> bool" where
  "starts_with p s = (take (length p) s = p)"

fun chain_format :: "step list \<Rightarrow> string option" where
  "chain_format [] = None"
| "chain_format (Invoke m [Str f] # ss) =
     (case chain_format ss of
        Some f' \<Rightarrow> Some f'
      | None \<Rightarrow> if m = ''format'' then Some f else None)"
| "chain_format (s # ss) = chain_format ss"

text \<open>
  A \<^verbatim>\<open>load\<close> or \<^verbatim>\<open>save\<close> goes to the source of the chain's format; Spark's
  source when no format is given is Parquet.
\<close>

definition format_kind :: "string option \<Rightarrow> store_kind list" where
  "format_kind f =
     (case f of
        None \<Rightarrow> [ParquetHive]
      | Some n \<Rightarrow>
          if n = kv_format then [NoSQLTable]
          else if n = ''csv'' then [CSVFile]
          else if n \<in> set [''parquet'', ''hive'', ''orc''] then [ParquetHive]
          else [])"

fun step_kinds :: "step list \<Rightarrow> step \<Rightarrow> store_kind list" where
  "step_kinds chain (Invoke m args) =
     (if m = ''read_csv'' \<or> m = ''csv'' then [CSVFile]
      else if m = ''write'' then
        (case args of
           Str b # rest \<Rightarrow> if b = ''nosql'' \<or> b = ''kv'' then [NoSQLTable] else []
         | _ \<Rightarrow> [])
      else if m = ''load'' \<or> m = ''save'' then format_kind (chain_format chain)
      else if m \<in> set [''parquet'', ''saveAsTable'', ''insertInto'', ''table'', ''sql'',
                        ''enableHiveSupport'']
      then [ParquetHive]
      else [])"
| "step_kinds chain s = []"

definition expr_stores :: "expr \<Rightarrow> store_kind list" where
  "expr_stores e = concat (map (step_kinds (spine e)) (spine e))"

fun word_stores :: "word \<Rightarrow> store_kind list" where
  "word_stores (Lit s) =
     (if starts_with ''http'' s then [ObjectStore]
      else if starts_with ''/User'' s then [FileSystem]
      else [])"
| "word_stores (Ref v) = []"

fun sh_stores :: "sh \<Rightarrow> store_kind list" where
  "sh_stores (ShCmd prog ws redir) =
     concat (map word_stores ws) @ (case redir of None \<Rightarrow> [] | Some t \<Rightarrow> [FileSystem])"
| "sh_stores c = []"

definition cell_stores :: "cell \<Rightarrow> store_kind list" where
  "cell_stores c = concat (map expr_stores (cell_exprs c)) @ concat (map sh_stores (cell_commands c))"


section \<open>Notions used in the proofs\<close>

text \<open>
  \<open>clear_path\<close> says when \<^verbatim>\<open>mkdir -p\<close> succeeds; \<open>kernel\<close> is what the
  first three cells of \<^verbatim>\<open>file-access.ipynb\<close> leave in the kernel's namespace; the
  others name terms that the cells compute.
\<close>

fun clear_path :: "store \<Rightarrow> string list \<Rightarrow> string list \<Rightarrow> bool" where
  "clear_path s base [] = True"
| "clear_path s base (c # cs) =
     ((case map_of s (base @ [c]) of None \<Rightarrow> True | Some n \<Rightarrow> is_dir (Some n)) \<and>
      clear_path s (base @ [c]) cs)"

definition kernel :: "world \<Rightarrow> string \<Rightarrow> bool" where
  "kernel w sd =
     (py_env w ''os'' = Some (VModule ''os'') \<and>
      py_env w ''pd'' = Some (VModule ''pandas'') \<and>
      py_env w ''client'' = Some (VClient ''framesd:8081'' ''users'') \<and>
      py_env w ''sample_dir'' = Some (VStr ''examples/stocks'') \<and>
      py_env w ''sample_dir_path'' = Some (VStr ''/User/examples/stocks'') \<and>
      py_env w ''sample_dir_url_path'' = Some (VStr sd))"

definition csv_path :: string where
  "csv_path = ''/User/examples/stocks/stocks_example.csv''"

definition csv_df :: "nat \<Rightarrow> row list \<Rightarrow> spark_df" where
  "csv_df n ls =
     (case ls of [] \<Rightarrow> SparkDF [] [] | h # rs \<Rightarrow> SparkDF h (chunks n (map (fit (length h)) rs)))"

definition kv_items :: "nat \<Rightarrow> spark_df \<Rightarrow> (string \<times> (string \<times> string) list) list" where
  "kv_items i d = map (\<lambda>r. (cell_at i r, zip (sp_columns d) r)) (concat (sp_parts d))"

definition condition :: string where
  "condition = ''TradedVolume>20000''"

definition listing :: "store \<Rightarrow> string list \<Rightarrow> (string \<times> bool) list" where
  "listing s k = map (\<lambda>(n, x). (n, is_dir (Some x))) (children s k)"

definition simple :: "string \<Rightarrow> bool" where
  "simple n = (n \<noteq> [] \<and> CHR ''/'' \<notin> set n)"

definition platform_env :: "world \<Rightarrow> string \<Rightarrow> bool" where
  "platform_env w n =
     (simple n \<and> os_env w ''V3IO_HOME'' = Some (''users/'' @ n) \<and>
      os_env w ''V3IO_HOME_URL'' = Some (''v3io://users/'' @ n))"

definition sample_key :: "string \<Rightarrow> string list" where
  "sample_key n = [''users'', n, ''examples'', ''stocks'']"

definition url_dir :: "string \<Rightarrow> string" where
  "url_dir n = ''v3io://users/'' @ n @ ''/examples/stocks''"

definition table_base :: "node option \<Rightarrow> bool \<Rightarrow> kv_table" where
  "table_base n replace =
     (case n of Some (Table t) \<Rightarrow> if replace then KVTable [] [] else t | _ \<Rightarrow> KVTable [] [])"

definition csv_key :: "string \<Rightarrow> string list" where
  "csv_key n = sample_key n @ [''stocks_example.csv'']"

definition frames_key :: "string list" where
  "frames_key = [''users'', ''examples'', ''stocks'', ''stocks_example_tab'']"

definition table_key :: "string \<Rightarrow> string list" where
  "table_key n = sample_key n @ [''stocks_tab_spark'']"

definition out_key :: "string \<Rightarrow> string list" where
  "out_key n = sample_key n @ [''stocks_high_volume.csv'']"

fun prefixes_from :: "'a list \<Rightarrow> 'a list \<Rightarrow> 'a list list" where
  "prefixes_from b [] = []"
| "prefixes_from b (c # cs) = (b @ [c]) # prefixes_from (b @ [c]) cs"

fun is_file :: "node option \<Rightarrow> bool" where
  "is_file (Some (File c)) = True"
| "is_file n = False"

definition ready :: "world \<Rightarrow> string \<Rightarrow> bool" where
  "ready w n =
     (platform_env w n \<and>
      clear_path (dfs w) [] (sample_key n) \<and>
      \<not> is_dir (map_of (dfs w) (csv_key n)) \<and>
      (case web w sample_url of
         Some (h # rs) \<Rightarrow> ''ISIN'' \<in> set h \<and> ''TradedVolume'' \<in> set h
       | _ \<Rightarrow> False) \<and>
      clear_path (dfs w) [] (butlast frames_key) \<and>
      \<not> is_file (map_of (dfs w) frames_key) \<and>
      \<not> is_file (map_of (dfs w) (table_key n)) \<and>
      (\<forall>cols. ''TradedVolume'' \<in> set cols \<longrightarrow> sql_where w condition cols \<noteq> None))"

fun is_access :: "event \<Rightarrow> bool" where
  "is_access (Access a p) = True"
| "is_access e = False"

definition accesses :: "world \<Rightarrow> event list" where
  "accesses w = filter is_access (events w)"

text \<open>
  What the cells do: the Frames client is given a path relative to its container,
  neither a URL nor a path of the local file system.
\<close>

definition relative_path :: "string \<Rightarrow> bool" where
  "relative_path p = (p \<noteq> [] \<and> hd p \<noteq> CHR ''/'' \<and> \<not> starts_with ''v3io://'' p)"

fun addressed :: "string \<Rightarrow> event \<Rightarrow> bool" where
  "addressed u (Access Spark p) = starts_with u p"
| "addressed u (Access Frames p) = relative_path p"
| "addressed u (Access a p) = starts_with ''/User'' p"
| "addressed u e = True"










text \<open>
  A table is keyed by a column when its items have distinct names and each item's value
  for the column is the item's name.
\<close>

definition keyed_by :: "string \<Rightarrow> kv_table \<Rightarrow> bool" where
  "keyed_by c t =
     (distinct (map fst (t_items t)) \<and> list_all (\<lambda>(k, a). map_of a c = Some k) (t_items t))"

fun keyed_node :: "string \<Rightarrow> node option \<Rightarrow> bool" where
  "keyed_node c (Some (Table t)) = keyed_by c t"
| "keyed_node c n = True"

definition column :: "string \<Rightarrow> kv_table \<Rightarrow> string list" where
  "column c t =
     (case position c (t_schema t) of None \<Rightarrow> [] | Some i \<Rightarrow> map (cell_at i) (table_rows t))"


text \<open>
  The concrete platform with a regular file \<^verbatim>\<open>examples\<close> in the user's home directory.
\<close>

definition blocked_world :: world where
  "blocked_world =
     demo_world\<lparr>dfs := dfs demo_world @ [([''users'', ''iguazio'', ''examples''], File [])]\<rparr>"

definition map_of_store :: "string list \<Rightarrow> world \<Rightarrow> node option" where
  "map_of_store k w = map_of (dfs w) k"

text \<open>The shell commands of the cells, in the order of the notebook.\<close>

fun sh_prog :: "sh \<Rightarrow> string list" where
  "sh_prog (ShCmd prog ws r) = [prog]"
| "sh_prog c = []"

definition notebook_commands :: "cell list \<Rightarrow> string list" where
  "notebook_commands cs = concat (map sh_prog (concat (map cell_commands cs)))"







section \<open>Properties of the cells as written\<close>

lemmas cells_defs =
  fa_cell1_def fa_cell2_def fa_cell3_def fa_cell4_def fa_cell5_def fa_cell6_def fa_cell7_def
  fa_cell8_def fa_cell9_def fa_cell10_def fa_cell11_def fa_cell12_def fa_cell13_def
  fa_cell14_def readme_cell1_def

lemma conversions_eq:
  "conversions =
     [meth (meth (Attr (Name ''spark'') ''read'') ''option'' [Str ''header'', Str ''true''])
        ''csv'' [os_path_join (Name ''sample_dir_url_path'') (Str ''stocks_example.csv'')],
      meth (meth (meth (meth (meth (Attr (Name ''df'') ''write'')
                ''format'' [Str ''io.iguaz.v3io.spark.sql.kv''])
              ''mode'' [Str ''append''])
            ''option'' [Str ''key'', Str ''ISIN''])
          ''option'' [Str ''allow-overwrite-schema'', Str ''true''])
        ''save'' [os_path_join (Name ''sample_dir_url_path'') (Str ''stocks_tab_spark'')],
      meth (meth (meth (Attr (Name ''spark'') ''read'')
                ''format'' [Str ''io.iguaz.v3io.spark.sql.kv''])
              ''load'' [os_path_join (Name ''sample_dir_url_path'') (Str ''stocks_tab_spark'')])
          ''where'' [Str ''TradedVolume>20000''],
      meth (meth (Attr (meth (Name ''myDF2'') ''coalesce'' [Num 1]) ''write'')
              ''mode'' [Str ''overwrite''])
          ''csv'' [os_path_join (Name ''sample_dir_url_path'') (Str ''stocks_high_volume.csv'')]]"
  by (simp add: conversions_def file_access_def cells_defs spark_io_def)

text \<open>
  C1, as stated: the Spark conversions (CSV to NoSQL table, NoSQL table to CSV) pass
  configuration values only. This fails: the chain that reads the table back calls
  \<^verbatim>\<open>where\<close> and the chain that writes the CSV calls \<^verbatim>\<open>coalesce\<close>.
\<close>

theorem conversions_not_config_only: "\<not> list_all config_only conversions"
  by (simp add: conversions_eq config_only_def)

text \<open>
  C1, amended: in the four conversion expressions every step is a configuration step
  (a reader or writer, a format, a mode, an option or a path), except for exactly two:
  the row selection \<^verbatim>\<open>where("TradedVolume>20000")\<close> and the partition change
  \<^verbatim>\<open>coalesce(1)\<close>, both in the NoSQL-to-CSV direction and both with a literal argument.
\<close>

theorem conversions_config_and_two_computations:
  "map non_config conversions =
     [[], [], [Invoke ''where'' [Str ''TradedVolume>20000'']], [Invoke ''coalesce'' [Num 1]]]"
  by (simp add: conversions_eq non_config_def)

lemma cells_kinds_eq:
  "cells_kinds Map.empty (file_access @ readme) =
     [[KImport ''pandas'', KImport ''v3io_frames'', KImport ''os''],
      [KComment, KCall (Some ''v3io_frames'')],
      [KComment, KCall (Some ''os''), KComment, KCall (Some ''os''), KComment,
       KComment, KCall (Some ''os''), KCall (Some ''os'')],
      [KComment, KCommand ''mkdir''],
      [KCommand ''curl''],
      [KComment, KCall (Some ''pandas''), KCall (Some ''os''), KComment,
       KCall (Some ''pandas''), KComment, KCall (Some ''pandas'')],
      [KCall (Some ''os''), KCall (Some ''v3io_frames'')],
      [KImport ''pyspark.sql'', KCall (Some ''pyspark.sql''), KCall (Some ''pyspark.sql''),
       KComment, KComment, KCall (Some ''pyspark.sql''), KCall (Some ''pyspark.sql''),
       KCall (Some ''os''), KComment, KCall (Some ''pyspark.sql'')],
      [KComment, KComment, KCall (Some ''pyspark.sql''), KCall (Some ''pyspark.sql''),
       KCall (Some ''pyspark.sql''), KCall (Some ''pyspark.sql''), KCall (Some ''pyspark.sql''),
       KCall (Some ''os'')],
      [KComment, KCall (Some ''pyspark.sql''), KCall (Some ''pyspark.sql''),
       KCall (Some ''pyspark.sql''), KCall (Some ''os'')],
      [KComment, KCall (Some ''pyspark.sql''), KCall (Some ''pyspark.sql''),
       KCall (Some ''pyspark.sql''), KCall (Some ''os'')],
      [KCommand ''ls''],
      [KComment],
      [KCall (Some ''pyspark.sql'')],
      [KCommand ''curl'']]"
  by (simp add: file_access_def readme_def cells_defs origin_def)

text \<open>
  C4, as stated: every code cell is a call into pandas, Spark, the Frames client, Presto,
  Dask or cuDF, or one of the commands curl, mkdir, ls and rm. This fails at the third
  code cell of \<^verbatim>\<open>file-access.ipynb\<close>, which only calls \<^verbatim>\<open>os.path.join\<close> and
  \<^verbatim>\<open>os.getenv\<close>.
\<close>

theorem cell3_is_not_an_sdk_call:
  "\<not> cell_is_sdk_call (cells_kinds Map.empty (file_access @ readme) ! 2)"
  by (simp add: cells_kinds_eq cell_is_sdk_call_def sdk_modules_def)

text \<open>
  C4, amended: every code cell of the two notebooks is made of comments, imports of
  pandas, v3io_frames, os and pyspark.sql, calls into these four modules, and the
  commands curl, mkdir and ls. (So no cell calls Presto, Dask or cuDF, and no cell runs
  rm: the one rm line is a comment.)
\<close>

theorem cells_are_imports_calls_and_commands:
  "list_all (list_all cell_part) (cells_kinds Map.empty (file_access @ readme))"
  by (simp add: cells_kinds_eq)

lemma cell_stores_eq:
  "map cell_stores (file_access @ readme) =
     [[], [], [], [FileSystem], [ObjectStore, FileSystem], [CSVFile], [NoSQLTable], [CSVFile],
      [NoSQLTable], [NoSQLTable], [CSVFile], [FileSystem], [], [], [ObjectStore, FileSystem]]"
  by (simp add: file_access_def readme_def cells_defs cell_stores_def expr_stores_def
      format_kind_def kv_format_def starts_with_def)

text \<open>
  C5, as stated: some operation of the source files reads or writes a Parquet or Hive
  table. None does.
\<close>

theorem no_cell_names_parquet_or_hive:
  "ParquetHive \<notin> set (concat (map cell_stores (file_access @ readme)))"
  unfolding cell_stores_eq by simp

text \<open>
  C5, amended: the operations of the source files name an external object store (the
  URL that curl downloads), the file system under \<^verbatim>\<open>/User\<close>, CSV files and NoSQL
  tables, and no other kind of store.
\<close>

theorem cells_name_four_kinds_of_store:
  "set (concat (map cell_stores (file_access @ readme))) =
     {ObjectStore, FileSystem, NoSQLTable, CSVFile}"
  unfolding cell_stores_eq by auto


section \<open>Running the cells\<close>

lemmas lib_defs = call_method_def module_function_def get_attr_def pandas_method_def
  frames_method_def builder_method_def session_method_def reader_method_def writer_method_def
  spark_df_method_def known_modules_def

lemma map_of_update [simp]:
  "map_of (AList.update k v s) p = (if p = k then Some v else map_of s p)"
  by (simp add: update_conv')

lemma clear_path_cong:
  "\<forall>p. length base < length p \<longrightarrow> map_of s' p = map_of s p \<Longrightarrow>
   clear_path s' base cs = clear_path s base cs"
proof (induction cs arbitrary: base)
  case Nil
  then show ?case by simp
next
  case (Cons c cs)
  from Cons.prems have "\<forall>p. length (base @ [c]) < length p \<longrightarrow> map_of s' p = map_of s p"
    by simp
  then have "clear_path s' (base @ [c]) cs = clear_path s (base @ [c]) cs"
    by (rule Cons.IH)
  moreover from Cons.prems have "map_of s' (base @ [c]) = map_of s (base @ [c])"
    by simp
  ultimately show ?case by simp
qed

lemma mkdirs_clear: "(mkdirs s base cs \<noteq> None) = clear_path s base cs"
proof (induction cs arbitrary: s base)
  case Nil
  then show ?case by simp
next
  case (Cons c cs)
  show ?case
  proof (cases "map_of s (base @ [c])")
    case None
    have "clear_path (AList.update (base @ [c]) Dir s) (base @ [c]) cs = clear_path s (base @ [c]) cs"
      by (rule clear_path_cong) simp
    with None Cons show ?thesis by simp
  next
    case (Some n)
    with Cons show ?thesis by simp
  qed
qed

lemma mkdirs_keeps:
  "mkdirs s base cs = Some s' \<Longrightarrow> map_of s p = Some n \<Longrightarrow> map_of s' p = Some n"
proof (induction cs arbitrary: s base)
  case Nil
  then show ?case by simp
next
  case (Cons c cs)
  show ?case
  proof (cases "map_of s (base @ [c])")
    case None
    with Cons.prems have "mkdirs (AList.update (base @ [c]) Dir s) (base @ [c]) cs = Some s'"
      by simp
    moreover from None Cons.prems have "map_of (AList.update (base @ [c]) Dir s) p = Some n"
      by auto
    ultimately show ?thesis by (rule Cons.IH)
  next
    case (Some m)
    with Cons.prems have "mkdirs s (base @ [c]) cs = Some s'"
      by (simp split: if_splits)
    then show ?thesis using Cons.prems(2) by (rule Cons.IH)
  qed
qed

text \<open>What mkdirs adds is a directory, at a path between base and the target.\<close>

lemma mkdirs_adds:
  "mkdirs s base cs = Some s' \<Longrightarrow> map_of s p = None \<Longrightarrow>
   map_of s' p = None \<or> (map_of s' p = Some Dir \<and> (\<exists>j. 0 < j \<and> j \<le> length cs \<and> p = base @ take j cs))"
proof (induction cs arbitrary: s base)
  case Nil
  then show ?case by simp
next
  case (Cons c cs)
  show ?case
  proof (cases "map_of s (base @ [c])")
    case None
    with Cons.prems have m: "mkdirs (AList.update (base @ [c]) Dir s) (base @ [c]) cs = Some s'"
      by simp
    show ?thesis
    proof (cases "p = base @ [c]")
      case True
      have "map_of (AList.update (base @ [c]) Dir s) p = Some Dir" using True by simp
      with m have "map_of s' p = Some Dir" by (rule mkdirs_keeps)
      moreover have "p = base @ take 1 (c # cs)" using True by simp
      ultimately show ?thesis by (metis One_nat_def le_add1 length_Cons less_one plus_1_eq_Suc zero_less_one)
    next
      case False
      with Cons.prems have "map_of (AList.update (base @ [c]) Dir s) p = None" by simp
      with m have "map_of s' p = None \<or> (map_of s' p = Some Dir \<and> (\<exists>j. 0 < j \<and> j \<le> length cs \<and> p = (base @ [c]) @ take j cs))"
        by (rule Cons.IH)
      then show ?thesis
      proof
        assume "map_of s' p = None" then show ?thesis by simp
      next
        assume "map_of s' p = Some Dir \<and> (\<exists>j. 0 < j \<and> j \<le> length cs \<and> p = (base @ [c]) @ take j cs)"
        then obtain j where d: "map_of s' p = Some Dir" and j: "0 < j" "j \<le> length cs" "p = (base @ [c]) @ take j cs"
          by blast
        have "0 < Suc j \<and> Suc j \<le> length (c # cs) \<and> p = base @ take (Suc j) (c # cs)" using j by simp
        with d show ?thesis by blast
      qed
    qed
  next
    case (Some m)
    with Cons.prems have m: "mkdirs s (base @ [c]) cs = Some s'"
      by (simp split: if_splits)
    from m Cons.prems(2) have "map_of s' p = None \<or> (map_of s' p = Some Dir \<and> (\<exists>j. 0 < j \<and> j \<le> length cs \<and> p = (base @ [c]) @ take j cs))"
      by (rule Cons.IH)
    then show ?thesis
    proof
      assume "map_of s' p = None" then show ?thesis by simp
    next
      assume "map_of s' p = Some Dir \<and> (\<exists>j. 0 < j \<and> j \<le> length cs \<and> p = (base @ [c]) @ take j cs)"
      then obtain j where d: "map_of s' p = Some Dir" and j: "0 < j" "j \<le> length cs" "p = (base @ [c]) @ take j cs"
        by blast
      have "0 < Suc j \<and> Suc j \<le> length (c # cs) \<and> p = base @ take (Suc j) (c # cs)" using j by simp
      with d show ?thesis by blast
    qed
  qed
qed

lemma mkdirs_last:
  "mkdirs s base (cs @ [c]) = Some s' \<Longrightarrow> is_dir (map_of s' (base @ cs @ [c]))"
proof (induction cs arbitrary: s base)
  case Nil
  then show ?case by (auto simp: is_dir_def split: option.splits if_splits)
next
  case (Cons d ds)
  show ?case
  proof (cases "map_of s (base @ [d])")
    case None
    with Cons.prems have "mkdirs (AList.update (base @ [d]) Dir s) (base @ [d]) (ds @ [c]) = Some s'"
      by simp
    then have "is_dir (map_of s' ((base @ [d]) @ ds @ [c]))" by (rule Cons.IH)
    then show ?thesis by simp
  next
    case (Some n)
    with Cons.prems have "mkdirs s (base @ [d]) (ds @ [c]) = Some s'" by (simp split: if_splits)
    then have "is_dir (map_of s' ((base @ [d]) @ ds @ [c]))" by (rule Cons.IH)
    then show ?thesis by simp
  qed
qed

lemma join1 [simp]: "path_join ''examples'' ''stocks'' = ''examples/stocks''"
  "path_join ''/User'' ''examples/stocks'' = ''/User/examples/stocks''"
  "path_join ''/User/examples/stocks'' ''stocks_example.csv'' = csv_path"
  "path_join ''examples/stocks'' ''stocks_example_tab'' = ''examples/stocks/stocks_example_tab''"
  by (simp_all add: path_join_def csv_path_def)

lemma emit_fields [simp]:
  "py_env (emit e w) = py_env w" "os_env (emit e w) = os_env w" "dfs (emit e w) = dfs w"
  "web (emit e w) = web w" "spark_on (emit e w) = spark_on w"
  "spark_chunk (emit e w) = spark_chunk w" "sql_where (emit e w) = sql_where w"
  "events (emit e w) = events w @ [e]"
  by (simp_all add: emit_def)

lemma emit_update [simp]:
  "emit e (w\<lparr>py_env := pe\<rparr>) = (emit e w)\<lparr>py_env := pe\<rparr>"
  "emit e (w\<lparr>dfs := s\<rparr>) = (emit e w)\<lparr>dfs := s\<rparr>"
  "emit e (w\<lparr>spark_on := b\<rparr>) = (emit e w)\<lparr>spark_on := b\<rparr>"
  by (simp_all add: emit_def)

lemma resolve_local_frame [simp]:
  "resolve_local (emit e w) p = resolve_local w p"
  "resolve_local (w\<lparr>py_env := pe\<rparr>) p = resolve_local w p"
  "resolve_local (w\<lparr>dfs := s\<rparr>) p = resolve_local w p"
  "resolve_local (w\<lparr>spark_on := b\<rparr>) p = resolve_local w p"
  by (simp_all add: resolve_local_def split: list.splits)

lemma kernel_frame [simp]:
  "kernel (emit e w) sd = kernel w sd"
  "kernel (w\<lparr>dfs := s\<rparr>) sd = kernel w sd"
  "kernel (w\<lparr>spark_on := b\<rparr>) sd = kernel w sd"
  by (simp_all add: kernel_def)

lemma cells123:
  "run w [fa_cell1, fa_cell2, fa_cell3] =
     (case os_env w ''V3IO_HOME_URL'' of
        None \<Rightarrow> Inl (TypeError ''join'')
      | Some u \<Rightarrow> Inr (w\<lparr>py_env := (py_env w)
              (''pd'' \<mapsto> VModule ''pandas'', ''v3f'' \<mapsto> VModule ''v3io_frames'',
               ''os'' \<mapsto> VModule ''os'', ''client'' \<mapsto> VClient ''framesd:8081'' ''users'',
               ''sample_dir'' \<mapsto> VStr ''examples/stocks'',
               ''sample_dir_path'' \<mapsto> VStr ''/User/examples/stocks'',
               ''sample_dir_url_path'' \<mapsto> VStr (path_join u ''examples/stocks''))\<rparr>))"
  by (simp add: fa_cell1_def fa_cell2_def fa_cell3_def lib_defs split: option.splits)

lemma cell4_exec:
  "exec_cell w fa_cell4 =
     Inr (case resolve_local w ''/User/examples/stocks'' of
            None \<Rightarrow> emit (Exit ''mkdir'' 1) (emit (Access Shell ''/User/examples/stocks'') w)
          | Some k \<Rightarrow>
              (case mkdirs (dfs w) [] k of
                 None \<Rightarrow> emit (Exit ''mkdir'' 1) (emit (Access Shell ''/User/examples/stocks'') w)
               | Some s \<Rightarrow>
                   emit (Exit ''mkdir'' 0)
                     ((emit (Access Shell ''/User/examples/stocks'') w)\<lparr>dfs := s\<rparr>)))"
  by (simp add: fa_cell4_def command_def split: option.splits)

lemma cell5_elim:
  assumes "exec_cell w fa_cell5 = Inr w'"
  obtains k c where "resolve_local w csv_path = Some k" "k \<noteq> []"
    "is_dir (map_of (dfs w) (butlast k))" "\<not> is_dir (map_of (dfs w) k)"
    "web w sample_url = Some c"
    "w' = emit (Exit ''curl'' 0)
           ((emit (Access Shell csv_path) w)\<lparr>dfs := AList.update k (File c) (dfs w)\<rparr>)"
  using assms
  by (auto simp add: fa_cell5_def command_def open_write_def csv_path_def sample_url_def
      split: option.splits if_splits)

lemma cell6_elim:
  assumes "kernel w sd" "exec_cell w fa_cell6 = Inr w'"
  obtains k h rs d where "resolve_local w csv_path = Some k"
    "map_of (dfs w) k = Some (File (h # rs))"
    "pd_set_index ''ISIN'' (PandasDF None h rs) = Some d"
    "w' = (emit (Access Pandas csv_path) w)\<lparr>py_env := (py_env w)(''df'' \<mapsto> VPandas d)\<rparr>"
  using assms
  by (auto simp add: fa_cell6_def lib_defs kernel_def pd_read_csv_def
      split: option.splits node.splits list.splits)

lemma cell7_elim:
  assumes "kernel w sd" "py_env w ''df'' = Some (VPandas d)" "exec_cell w fa_cell7 = Inr w'"
  obtains iname ivals s where "pd_index d = Some (iname, ivals)"
    "write_table (dfs w) [''users'', ''examples'', ''stocks'', ''stocks_example_tab'']
       (iname # pd_columns d) (frames_items iname ivals d) False = Some s"
    "w' = (emit (Access Frames ''examples/stocks/stocks_example_tab'') w)
            \<lparr>py_env := (py_env w)(''nosql_table'' \<mapsto> VStr ''examples/stocks/stocks_example_tab''),
             dfs := s\<rparr>"
  using assms
  by (auto simp add: fa_cell7_def lib_defs kernel_def components_def
      split: option.splits)

lemma cell8_elim:
  assumes "kernel w sd" "exec_cell w fa_cell8 = Inr w'"
  obtains k ls where "resolve_url (path_join sd ''stocks_example.csv'') = Some k"
    "map_of (dfs w) k = Some (File ls)"
    "w' = (emit (Displayed (take 20 (concat (sp_parts (csv_df (spark_chunk w) ls)))))
            (emit (Access Spark (path_join sd ''stocks_example.csv'')) w))
          \<lparr>py_env := (py_env w)
             (''SparkSession'' \<mapsto> VModule ''pyspark.sql.SparkSession'', ''spark'' \<mapsto> VSession,
              ''df'' \<mapsto> VSpark (csv_df (spark_chunk w) ls)),
           spark_on := True\<rparr>"
  using assms
  by (auto simp add: fa_cell8_def lib_defs kernel_def spark_read_def csv_df_def
      split: option.splits node.splits list.splits)

lemma cell9_elim:
  assumes "kernel w sd" "py_env w ''df'' = Some (VSpark d)" "exec_cell w fa_cell9 = Inr w'"
  obtains k i s where "spark_on w"
    "resolve_url (path_join sd ''stocks_tab_spark'') = Some k"
    "position ''ISIN'' (sp_columns d) = Some i"
    "write_table (dfs w) k (sp_columns d) (kv_items i d) False = Some s"
    "w' = (emit (Access Spark (path_join sd ''stocks_tab_spark'')) w)\<lparr>dfs := s\<rparr>"
  using assms
  by (auto simp add: fa_cell9_def lib_defs kernel_def spark_write_def kv_format_def kv_items_def
      split: option.splits if_splits)

lemma cell10_elim:
  assumes "kernel w sd" "py_env w ''spark'' = Some VSession" "exec_cell w fa_cell10 = Inr w'"
  obtains k t P where "spark_on w"
    "resolve_url (path_join sd ''stocks_tab_spark'') = Some k"
    "map_of (dfs w) k = Some (Table t)"
    "sql_where w condition (t_schema t) = Some P"
    "w' = (emit (Access Spark (path_join sd ''stocks_tab_spark'')) w)
          \<lparr>py_env := (py_env w)
             (''myDF2'' \<mapsto> VSpark (SparkDF (t_schema t)
                (map (filter P) (chunks (spark_chunk w) (table_rows t)))))\<rparr>"
  using assms
  by (auto simp add: fa_cell10_def lib_defs kernel_def spark_read_def kv_format_def condition_def
      split: option.splits node.splits if_splits)

lemma cell11_elim:
  assumes "kernel w sd" "py_env w ''myDF2'' = Some (VSpark d)" "exec_cell w fa_cell11 = Inr w'"
  obtains k s where "spark_on w"
    "resolve_url (path_join sd ''stocks_high_volume.csv'') = Some k"
    "write_csv_dir (dfs w) k (coalesce 1 (sp_parts d)) = Some s"
    "w' = (emit (Access Spark (path_join sd ''stocks_high_volume.csv'')) w)\<lparr>dfs := s\<rparr>"
  using assms
  by (auto simp add: fa_cell11_def lib_defs kernel_def spark_write_def kv_format_def
      split: option.splits if_splits)

lemma cell12_exec:
  "exec_cell w fa_cell12 =
     Inr (case resolve_local w ''/User/examples/stocks/'' of
            None \<Rightarrow> emit (Exit ''ls'' 2) (emit (Access Shell ''/User/examples/stocks/'') w)
          | Some k \<Rightarrow>
              if is_dir (map_of (dfs w) k)
              then emit (Exit ''ls'' 0) (emit (Listing (listing (dfs w) k))
                     (emit (Access Shell ''/User/examples/stocks/'') w))
              else emit (Exit ''ls'' 2) (emit (Access Shell ''/User/examples/stocks/'') w))"
  by (simp add: fa_cell12_def command_def listing_def split: option.splits)

lemma cell13_exec: "exec_cell w fa_cell13 = Inr w"
  by (simp add: fa_cell13_def)

lemma cell14_exec:
  "py_env w ''spark'' = Some VSession \<Longrightarrow> exec_cell w fa_cell14 = Inr (w\<lparr>spark_on := False\<rparr>)"
  by (simp add: fa_cell14_def lib_defs)

lemma kernel_bind [simp]:
  "x \<notin> set [''os'', ''pd'', ''client'', ''sample_dir'', ''sample_dir_path'', ''sample_dir_url_path'']
   \<Longrightarrow> kernel (w\<lparr>py_env := (py_env w)(x \<mapsto> v)\<rparr>) sd = kernel w sd"
  by (auto simp add: kernel_def)

lemma run_ConsE:
  assumes "run w (c # cs) = Inr w'"
  obtains w1 where "exec_cell w c = Inr w1" "run w1 cs = Inr w'"
  using assms by (auto split: sum.splits)

lemma run_append:
  "run w (xs @ ys) = (case run w xs of Inl e \<Rightarrow> Inl e | Inr w1 \<Rightarrow> run w1 ys)"
  by (induction xs arbitrary: w) (auto split: sum.splits)

lemma run_3E:
  assumes "run w (a # b # c # cs) = Inr w'"
  obtains w1 where "run w [a, b, c] = Inr w1" "run w1 cs = Inr w'"
  using assms by (auto split: sum.splits)

lemma pd_set_index_index:
  "pd_set_index c d = Some d' \<Longrightarrow> \<exists>ivals. pd_index d' = Some (c, ivals)"
  by (auto simp add: pd_set_index_def split: option.splits)

lemma file_access_run:
  assumes "run w file_access = Inr w'"
  obtains u sd s4 st4 k c h rs d6 ivals s7 k8 ls k9 i s9 t P k11 s11 w11 w12 where
    "os_env w ''V3IO_HOME_URL'' = Some u"
    "sd = path_join u ''examples/stocks''"
    "(case resolve_local w ''/User/examples/stocks'' of None \<Rightarrow> s4 = dfs w \<and> st4 = 1
      | Some k4 \<Rightarrow> (case mkdirs (dfs w) [] k4 of None \<Rightarrow> s4 = dfs w \<and> st4 = 1
          | Some s \<Rightarrow> s4 = s \<and> st4 = 0))"
    "resolve_local w csv_path = Some k" "k \<noteq> []"
    "is_dir (map_of s4 (butlast k))" "\<not> is_dir (map_of s4 k)"
    "web w sample_url = Some c" "c = h # rs"
    "pd_set_index ''ISIN'' (PandasDF None h rs) = Some d6"
    "pd_index d6 = Some (''ISIN'', ivals)"
    "write_table (AList.update k (File c) s4)
       [''users'', ''examples'', ''stocks'', ''stocks_example_tab'']
       (''ISIN'' # pd_columns d6) (frames_items ''ISIN'' ivals d6) False = Some s7"
    "resolve_url (path_join sd ''stocks_example.csv'') = Some k8"
    "map_of s7 k8 = Some (File ls)"
    "resolve_url (path_join sd ''stocks_tab_spark'') = Some k9"
    "position ''ISIN'' (sp_columns (csv_df (spark_chunk w) ls)) = Some i"
    "write_table s7 k9 (sp_columns (csv_df (spark_chunk w) ls))
       (kv_items i (csv_df (spark_chunk w) ls)) False = Some s9"
    "map_of s9 k9 = Some (Table t)"
    "sql_where w condition (t_schema t) = Some P"
    "resolve_url (path_join sd ''stocks_high_volume.csv'') = Some k11"
    "write_csv_dir s9 k11
       (coalesce 1 (map (filter P) (chunks (spark_chunk w) (table_rows t)))) = Some s11"
    "dfs w11 = s11" "run w (take 12 file_access) = Inr w12"
    "exec_cell w11 fa_cell12 = Inr w12" "dfs w12 = s11"
    "w' = w12\<lparr>spark_on := False\<rparr>"
    "os_env w12 = os_env w" "web w12 = web w" "sql_where w12 = sql_where w"
    "spark_chunk w12 = spark_chunk w"
    "events w11 = events w @
       [Access Shell ''/User/examples/stocks'', Exit ''mkdir'' st4,
        Access Shell csv_path, Exit ''curl'' 0, Access Pandas csv_path,
        Access Frames ''examples/stocks/stocks_example_tab'',
        Access Spark (path_join sd ''stocks_example.csv''),
        Displayed (take 20 (concat (sp_parts (csv_df (spark_chunk w) ls)))),
        Access Spark (path_join sd ''stocks_tab_spark''),
        Access Spark (path_join sd ''stocks_tab_spark''),
        Access Spark (path_join sd ''stocks_high_volume.csv'')]"
proof -
  from assms obtain w3 where r3: "run w [fa_cell1, fa_cell2, fa_cell3] = Inr w3"
    and r3': "run w3 [fa_cell4, fa_cell5, fa_cell6, fa_cell7, fa_cell8, fa_cell9, fa_cell10,
                     fa_cell11, fa_cell12, fa_cell13, fa_cell14] = Inr w'"
    unfolding file_access_def by (rule run_3E)
  from r3 obtain u where u: "os_env w ''V3IO_HOME_URL'' = Some u"
    and w3: "w3 = w\<lparr>py_env := (py_env w)
              (''pd'' \<mapsto> VModule ''pandas'', ''v3f'' \<mapsto> VModule ''v3io_frames'',
               ''os'' \<mapsto> VModule ''os'', ''client'' \<mapsto> VClient ''framesd:8081'' ''users'',
               ''sample_dir'' \<mapsto> VStr ''examples/stocks'',
               ''sample_dir_path'' \<mapsto> VStr ''/User/examples/stocks'',
               ''sample_dir_url_path'' \<mapsto> VStr (path_join u ''examples/stocks''))\<rparr>"
    unfolding cells123 by (auto split: option.splits)
  define sd where "sd = path_join u ''examples/stocks''"
  have k3: "kernel w3 sd" by (simp add: w3 kernel_def sd_def)
  from r3' obtain w4 where e4: "exec_cell w3 fa_cell4 = Inr w4"
    and r4: "run w4 [fa_cell5, fa_cell6, fa_cell7, fa_cell8, fa_cell9, fa_cell10,
                     fa_cell11, fa_cell12, fa_cell13, fa_cell14] = Inr w'"
    by (rule run_ConsE)
  define st4 :: nat where "st4 = (case resolve_local w ''/User/examples/stocks'' of None \<Rightarrow> 1
      | Some k4 \<Rightarrow> (case mkdirs (dfs w) [] k4 of None \<Rightarrow> 1 | Some s \<Rightarrow> 0))"
  define s4 where "s4 = (case resolve_local w ''/User/examples/stocks'' of None \<Rightarrow> dfs w
      | Some k4 \<Rightarrow> (case mkdirs (dfs w) [] k4 of None \<Rightarrow> dfs w | Some s \<Rightarrow> s))"
  have c4: "(case resolve_local w ''/User/examples/stocks'' of None \<Rightarrow> s4 = dfs w \<and> st4 = 1
      | Some k4 \<Rightarrow> (case mkdirs (dfs w) [] k4 of None \<Rightarrow> s4 = dfs w \<and> st4 = 1
          | Some s \<Rightarrow> s4 = s \<and> st4 = 0))"
    by (simp add: s4_def st4_def split: option.splits)
  from e4 have w4: "dfs w4 = s4" "py_env w4 = py_env w3" "os_env w4 = os_env w"
    "web w4 = web w" "spark_chunk w4 = spark_chunk w" "sql_where w4 = sql_where w"
    "events w4 = events w @ [Access Shell ''/User/examples/stocks'', Exit ''mkdir'' st4]"
    by (auto simp add: cell4_exec w3 s4_def st4_def split: option.splits)
  have rl4: "resolve_local w4 p = resolve_local w p" for p
    using w4(3) by (simp add: resolve_local_def split: list.splits)
  have k4: "kernel w4 sd" using k3 w4 by (simp add: kernel_def)
  from r4 obtain w5 where e5: "exec_cell w4 fa_cell5 = Inr w5"
    and r5: "run w5 [fa_cell6, fa_cell7, fa_cell8, fa_cell9, fa_cell10,
                     fa_cell11, fa_cell12, fa_cell13, fa_cell14] = Inr w'"
    by (rule run_ConsE)
  from e5 obtain k c where f5: "resolve_local w csv_path = Some k" "k \<noteq> []"
    "is_dir (map_of s4 (butlast k))" "\<not> is_dir (map_of s4 k)"
    "web w sample_url = Some c"
    and w5: "w5 = emit (Exit ''curl'' 0)
           ((emit (Access Shell csv_path) w4)\<lparr>dfs := AList.update k (File c) s4\<rparr>)"
    by (rule cell5_elim) (simp_all add: w4 rl4)
  have k5: "kernel w5 sd" using k4 by (simp add: w5 kernel_def)
  from r5 obtain w6 where e6: "exec_cell w5 fa_cell6 = Inr w6"
    and r6: "run w6 [fa_cell7, fa_cell8, fa_cell9, fa_cell10,
                     fa_cell11, fa_cell12, fa_cell13, fa_cell14] = Inr w'"
    by (rule run_ConsE)
  from k5 e6 obtain h rs d6 where f6: "c = h # rs"
    "pd_set_index ''ISIN'' (PandasDF None h rs) = Some d6"
    and w6: "w6 = (emit (Access Pandas csv_path) w5)\<lparr>py_env := (py_env w5)(''df'' \<mapsto> VPandas d6)\<rparr>"
    by (rule cell6_elim) (auto simp add: w5 w4 rl4 f5 update_conv')
  from f6(2) obtain ivals where i6: "pd_index d6 = Some (''ISIN'', ivals)"
    using pd_set_index_index by blast
  have k6: "kernel w6 sd" using k5 by (simp add: w6 kernel_def)
  from r6 obtain w7 where e7: "exec_cell w6 fa_cell7 = Inr w7"
    and r7: "run w7 [fa_cell8, fa_cell9, fa_cell10, fa_cell11, fa_cell12, fa_cell13, fa_cell14] = Inr w'"
    by (rule run_ConsE)
  have df6: "py_env w6 ''df'' = Some (VPandas d6)" by (simp add: w6)
  from k6 df6 e7 obtain s7 where f7: "write_table (AList.update k (File c) s4)
       [''users'', ''examples'', ''stocks'', ''stocks_example_tab'']
       (''ISIN'' # pd_columns d6) (frames_items ''ISIN'' ivals d6) False = Some s7"
    and w7: "w7 = (emit (Access Frames ''examples/stocks/stocks_example_tab'') w6)
            \<lparr>py_env := (py_env w6)(''nosql_table'' \<mapsto> VStr ''examples/stocks/stocks_example_tab''),
             dfs := s7\<rparr>"
    by (rule cell7_elim) (auto simp add: w6 w5 i6)
  have k7: "kernel w7 sd" using k6 by (simp add: w7 kernel_def)
  from r7 obtain w8 where e8: "exec_cell w7 fa_cell8 = Inr w8"
    and r8: "run w8 [fa_cell9, fa_cell10, fa_cell11, fa_cell12, fa_cell13, fa_cell14] = Inr w'"
    by (rule run_ConsE)
  have n7: "spark_chunk w7 = spark_chunk w" "sql_where w7 = sql_where w"
    by (simp_all add: w7 w6 w5 w4)
  from k7 e8 obtain k8 ls where f8: "resolve_url (path_join sd ''stocks_example.csv'') = Some k8"
    "map_of s7 k8 = Some (File ls)"
    and w8: "w8 = (emit (Displayed (take 20 (concat (sp_parts (csv_df (spark_chunk w) ls)))))
            (emit (Access Spark (path_join sd ''stocks_example.csv'')) w7))
          \<lparr>py_env := (py_env w7)
             (''SparkSession'' \<mapsto> VModule ''pyspark.sql.SparkSession'', ''spark'' \<mapsto> VSession,
              ''df'' \<mapsto> VSpark (csv_df (spark_chunk w) ls)),
           spark_on := True\<rparr>"
    by (rule cell8_elim) (auto simp add: w7 w6 w5 w4)
  have k8: "kernel w8 sd" using k7 by (simp add: w8 kernel_def)
  from r8 obtain w9 where e9: "exec_cell w8 fa_cell9 = Inr w9"
    and r9: "run w9 [fa_cell10, fa_cell11, fa_cell12, fa_cell13, fa_cell14] = Inr w'"
    by (rule run_ConsE)
  have df8: "py_env w8 ''df'' = Some (VSpark (csv_df (spark_chunk w) ls))" by (simp add: w8)
  from k8 df8 e9 obtain k9 i s9 where f9:
    "resolve_url (path_join sd ''stocks_tab_spark'') = Some k9"
    "position ''ISIN'' (sp_columns (csv_df (spark_chunk w) ls)) = Some i"
    "write_table s7 k9 (sp_columns (csv_df (spark_chunk w) ls))
       (kv_items i (csv_df (spark_chunk w) ls)) False = Some s9"
    and w9: "w9 = (emit (Access Spark (path_join sd ''stocks_tab_spark'')) w8)\<lparr>dfs := s9\<rparr>"
    by (rule cell9_elim) (auto simp add: w8 w7 w6 w5 w4)
  have k9: "kernel w9 sd" using k8 by (simp add: w9 kernel_def)
  from r9 obtain w10 where e10: "exec_cell w9 fa_cell10 = Inr w10"
    and r10: "run w10 [fa_cell11, fa_cell12, fa_cell13, fa_cell14] = Inr w'"
    by (rule run_ConsE)
  have sp9: "py_env w9 ''spark'' = Some VSession" by (simp add: w9 w8)
  from k9 sp9 e10 obtain t P where f10:
    "map_of s9 k9 = Some (Table t)"
    "sql_where w condition (t_schema t) = Some P"
    and w10: "w10 = (emit (Access Spark (path_join sd ''stocks_tab_spark'')) w9)
          \<lparr>py_env := (py_env w9)
             (''myDF2'' \<mapsto> VSpark (SparkDF (t_schema t)
                (map (filter P) (chunks (spark_chunk w) (table_rows t)))))\<rparr>"
    by (rule cell10_elim) (auto simp add: w9 w8 w7 w6 w5 w4 f9)
  have k10: "kernel w10 sd" using k9 by (simp add: w10 kernel_def)
  from r10 obtain w11 where e11: "exec_cell w10 fa_cell11 = Inr w11"
    and r11: "run w11 [fa_cell12, fa_cell13, fa_cell14] = Inr w'"
    by (rule run_ConsE)
  have df10: "py_env w10 ''myDF2'' = Some (VSpark (SparkDF (t_schema t)
                (map (filter P) (chunks (spark_chunk w) (table_rows t)))))" by (simp add: w10)
  from k10 df10 e11 obtain k11 s11 where f11:
    "resolve_url (path_join sd ''stocks_high_volume.csv'') = Some k11"
    "write_csv_dir s9 k11
       (coalesce 1 (map (filter P) (chunks (spark_chunk w) (table_rows t)))) = Some s11"
    and w11: "w11 = (emit (Access Spark (path_join sd ''stocks_high_volume.csv'')) w10)\<lparr>dfs := s11\<rparr>"
    by (rule cell11_elim) (auto simp add: w10 w9 w8 w7 w6 w5 w4)
  from r11 obtain w12 where e12: "exec_cell w11 fa_cell12 = Inr w12"
    and r12: "run w12 [fa_cell13, fa_cell14] = Inr w'"
    by (rule run_ConsE)
  have d12: "dfs w12 = s11" "py_env w12 ''spark'' = Some VSession"
    using e12 by (auto simp add: cell12_exec w11 w10 w9 w8 split: option.splits if_splits)
  have fr: "os_env w12 = os_env w" "web w12 = web w" "sql_where w12 = sql_where w"
    "spark_chunk w12 = spark_chunk w"
    using e12
    by (auto simp add: cell12_exec w11 w10 w9 w8 w7 w6 w5 w4 split: option.splits if_splits)
  from r12 d12 have w': "w' = w12\<lparr>spark_on := False\<rparr>"
    by (simp add: cell13_exec cell14_exec)
  have ev: "events w11 = events w @
       [Access Shell ''/User/examples/stocks'', Exit ''mkdir'' st4,
        Access Shell csv_path, Exit ''curl'' 0, Access Pandas csv_path,
        Access Frames ''examples/stocks/stocks_example_tab'',
        Access Spark (path_join sd ''stocks_example.csv''),
        Displayed (take 20 (concat (sp_parts (csv_df (spark_chunk w) ls)))),
        Access Spark (path_join sd ''stocks_tab_spark''),
        Access Spark (path_join sd ''stocks_tab_spark''),
        Access Spark (path_join sd ''stocks_high_volume.csv'')]"
    by (simp add: w11 w10 w9 w8 w7 w6 w5 w4)
  have "run w3 [fa_cell4, fa_cell5, fa_cell6, fa_cell7, fa_cell8, fa_cell9, fa_cell10,
                fa_cell11, fa_cell12] = Inr w12"
    using e4 e5 e6 e7 e8 e9 e10 e11 e12 by simp
  then have "run w ([fa_cell1, fa_cell2, fa_cell3] @
      [fa_cell4, fa_cell5, fa_cell6, fa_cell7, fa_cell8, fa_cell9, fa_cell10,
       fa_cell11, fa_cell12]) = Inr w12"
    unfolding run_append r3 by simp
  then have r: "run w (take 12 file_access) = Inr w12"
    by (simp add: file_access_def)
  show thesis
    by (rule that [OF u sd_def c4 f5 f6 i6 f7 f8 f9 f10 f11 _ r e12 d12(1) w' fr ev]) (simp add: w11)
qed


lemma split_slash_simple:
  "CHR ''/'' \<notin> set n \<Longrightarrow> split_slash (n @ CHR ''/'' # r) = n # split_slash r"
  by (induction n) auto

lemma split_slash_simple_end: "CHR ''/'' \<notin> set n \<Longrightarrow> split_slash n = [n]"
  by (induction n) auto

lemma components_home: "simple n \<Longrightarrow> components (''users/'' @ n) = [''users'', n]"
  by (simp add: components_def simple_def split_slash_simple_end)

lemma components_url:
  "simple n \<Longrightarrow> simple x \<Longrightarrow>
   components (''users/'' @ n @ ''/examples/stocks/'' @ x) = sample_key n @ [x]"
  by (simp add: components_def simple_def split_slash_simple split_slash_simple_end sample_key_def)

lemma last_simple: "simple n \<Longrightarrow> last n \<noteq> CHR ''/''"
  by (metis last_in_set simple_def)

lemma resolve_local_sample:
  assumes "platform_env w n"
  shows "resolve_local w ''/User/examples/stocks'' = Some (sample_key n)"
    and "resolve_local w ''/User/examples/stocks/'' = Some (sample_key n)"
    and "resolve_local w csv_path = Some (sample_key n @ [''stocks_example.csv''])"
proof -
  from assms have h: "os_env w ''V3IO_HOME'' = Some (''users/'' @ n)" and n: "simple n"
    by (simp_all add: platform_env_def)
  have c: "components (''users/'' @ n) = [''users'', n]" using n by (rule components_home)
  show "resolve_local w ''/User/examples/stocks'' = Some (sample_key n)"
    unfolding resolve_local_def h by (simp add: components_def [of "''/User/examples/stocks''"] c sample_key_def del: append.simps)
  show "resolve_local w ''/User/examples/stocks/'' = Some (sample_key n)"
    unfolding resolve_local_def h by (simp add: components_def [of "''/User/examples/stocks/''"] c sample_key_def del: append.simps)
  show "resolve_local w csv_path = Some (sample_key n @ [''stocks_example.csv''])"
    unfolding resolve_local_def h csv_path_def
    by (simp add: components_def [of "''/User/examples/stocks/stocks_example.csv''"] c sample_key_def del: append.simps)
qed

lemma url_dir_join:
  "simple n \<Longrightarrow> path_join (''v3io://users/'' @ n) ''examples/stocks'' = url_dir n"
  using last_simple [of n] by (simp add: path_join_def url_dir_def simple_def)

lemma resolve_url_sample:
  assumes "simple n" "simple x"
  shows "resolve_url (path_join (url_dir n) x) = Some (sample_key n @ [x])"
proof -
  have "last (url_dir n) = CHR ''s''" "url_dir n \<noteq> []"
    by (simp_all add: url_dir_def)
  moreover have "x \<noteq> []" using assms(2) by (simp add: simple_def)
  moreover have "hd x \<noteq> CHR ''/''" using assms(2) by (metis hd_in_set simple_def)
  ultimately have "path_join (url_dir n) x = url_dir n @ ''/'' @ x"
    by (simp add: path_join_def)
  then have "path_join (url_dir n) x = ''v3io://'' @ (''users/'' @ n @ ''/examples/stocks/'' @ x)"
    by (simp add: url_dir_def)
  then have "resolve_url (path_join (url_dir n) x) =
      Some (components (''users/'' @ n @ ''/examples/stocks/'' @ x))"
    by (simp add: resolve_url_def)
  then show ?thesis using assms by (simp only: components_url)
qed

lemma map_of_remove_tree:
  "map_of (remove_tree s k) p = (if beneath k p then None else map_of s p)"
  by (induction s) (auto simp add: remove_tree_def)

lemma clear_path_iff:
  "clear_path s base cs =
     (\<forall>j. 0 < j \<and> j \<le> length cs \<longrightarrow>
        map_of s (base @ take j cs) = None \<or> is_dir (map_of s (base @ take j cs)))"
proof (induction cs arbitrary: base)
  case Nil
  then show ?case by simp
next
  case (Cons c cs)
  have "(\<forall>j. 0 < j \<and> j \<le> Suc (length cs) \<longrightarrow>
          map_of s (base @ take j (c # cs)) = None \<or> is_dir (map_of s (base @ take j (c # cs)))) =
        ((map_of s (base @ [c]) = None \<or> is_dir (map_of s (base @ [c]))) \<and>
         (\<forall>j. 0 < j \<and> j \<le> length cs \<longrightarrow>
          map_of s ((base @ [c]) @ take j cs) = None \<or> is_dir (map_of s ((base @ [c]) @ take j cs))))"
    (is "?L = (?A \<and> ?B)")
  proof
    assume l: ?L
    have ?A using l [rule_format, of 1] by simp
    moreover have ?B
    proof (intro allI impI)
      fix j assume "0 < j \<and> j \<le> length cs"
      then show "map_of s ((base @ [c]) @ take j cs) = None \<or> is_dir (map_of s ((base @ [c]) @ take j cs))"
        using l [rule_format, of "Suc j"] by simp
    qed
    ultimately show "?A \<and> ?B" ..
  next
    assume ab: "?A \<and> ?B"
    show ?L
    proof (intro allI impI)
      fix j assume j: "0 < j \<and> j \<le> Suc (length cs)"
      show "map_of s (base @ take j (c # cs)) = None \<or> is_dir (map_of s (base @ take j (c # cs)))"
      proof (cases j)
        case 0
        with j show ?thesis by simp
      next
        case (Suc i)
        show ?thesis
        proof (cases i)
          case 0
          with Suc ab show ?thesis by simp
        next
          case (Suc i')
          with \<open>j = Suc i\<close> j ab show ?thesis by simp
        qed
      qed
    qed
  qed
  moreover have "(case map_of s (base @ [c]) of None \<Rightarrow> True | Some n \<Rightarrow> is_dir (Some n)) =
      (map_of s (base @ [c]) = None \<or> is_dir (map_of s (base @ [c])))"
    by (cases "map_of s (base @ [c])") (simp_all add: is_dir_def)
  ultimately show ?case by (simp add: Cons.IH)
qed

lemma mkdirs_prefix:
  "mkdirs s base cs = Some s' \<Longrightarrow> 0 < j \<Longrightarrow> j \<le> length cs \<Longrightarrow>
   is_dir (map_of s' (base @ take j cs))"
proof (induction cs arbitrary: s base j)
  case Nil
  then show ?case by simp
next
  case (Cons c cs)
  obtain s1 where s1: "mkdirs s1 (base @ [c]) cs = Some s'" "is_dir (map_of s1 (base @ [c]))"
  proof (cases "map_of s (base @ [c])")
    case None
    with Cons.prems(1) have "mkdirs (AList.update (base @ [c]) Dir s) (base @ [c]) cs = Some s'"
      by simp
    moreover have "is_dir (map_of (AList.update (base @ [c]) Dir s) (base @ [c]))"
      by (simp add: is_dir_def)
    ultimately show ?thesis by (rule that)
  next
    case (Some n)
    with Cons.prems(1) have "mkdirs s (base @ [c]) cs = Some s'" "is_dir (map_of s (base @ [c]))"
      by (simp_all split: if_splits)
    then show ?thesis by (rule that)
  qed
  show ?case
  proof (cases j)
    case 0
    with Cons.prems show ?thesis by simp
  next
    case (Suc i)
    show ?thesis
    proof (cases i)
      case 0
      from s1(2) obtain n where n: "map_of s1 (base @ [c]) = Some n"
        by (auto simp add: is_dir_def split: option.splits)
      with s1(1) have "map_of s' (base @ [c]) = Some n" by (rule mkdirs_keeps)
      with n s1(2) 0 Suc show ?thesis by simp
    next
      case (Suc i')
      with \<open>j = Suc i\<close> Cons.prems have "0 < i" "i \<le> length cs" by simp_all
      with s1(1) have "is_dir (map_of s' ((base @ [c]) @ take i cs))" by (rule Cons.IH)
      with \<open>j = Suc i\<close> show ?thesis by simp
    qed
  qed
qed

lemma mkdirs_clear_after: "mkdirs s base cs = Some s' \<Longrightarrow> clear_path s' base cs"
  by (simp add: clear_path_iff mkdirs_prefix)

text \<open>Where a table is written, there is the table afterwards; everything else stays.\<close>

lemma write_table_result:
  assumes "write_table s k cols its replace = Some s'"
  obtains s1 where "mkdirs s [] (butlast k) = Some s1"
    "s' = AList.update k (Table (put_items cols its (table_base (map_of s1 k) replace))) s1"
    "\<forall>c. map_of s1 k \<noteq> Some (File c)"
  using assms
  by (auto simp add: write_table_def table_base_def split: option.splits node.splits)

lemma write_table_keeps:
  assumes "write_table s k cols its replace = Some s'" "map_of s p = Some v" "p \<noteq> k"
  shows "map_of s' p = Some v"
proof -
  from assms(1) obtain s1 where s1: "mkdirs s [] (butlast k) = Some s1"
    "s' = AList.update k (Table (put_items cols its (table_base (map_of s1 k) replace))) s1"
    by (rule write_table_result)
  from s1(1) assms(2) have "map_of s1 p = Some v" by (rule mkdirs_keeps)
  with s1(2) assms(3) show ?thesis by simp
qed

lemma write_table_at:
  assumes "write_table s k cols its replace = Some s'"
  shows "\<exists>t. map_of s' k = Some (Table t)"
  using assms by (rule write_table_result) simp

lemma map_of_append_Some:
  "map_of s p = Some v \<Longrightarrow> map_of (s @ t) p = Some v"
  by (simp add: map_add_Some_iff)

lemma write_csv_dir_keeps:
  assumes "write_csv_dir s k parts = Some s'" "map_of s p = Some v" "\<not> beneath k p"
  shows "map_of s' p = Some v"
proof -
  from assms(1) obtain s1 where s1: "mkdirs (remove_tree s k) [] k = Some s1"
    "s' = s1 @ part_files k parts @ [(k @ [''_SUCCESS''], File [])]"
    by (auto simp add: write_csv_dir_def split: option.splits)
  from assms(2,3) have "map_of (remove_tree s k) p = Some v" by (simp add: map_of_remove_tree)
  with s1(1) have "map_of s1 p = Some v" by (rule mkdirs_keeps)
  with s1(2) show ?thesis by (simp add: map_of_append_Some)
qed


lemmas key_defs = csv_key_def frames_key_def table_key_def out_key_def sample_key_def

lemma csv_df_Cons:
  "csv_df m (h # rs) = SparkDF h (chunks m (map (fit (length h)) rs))"
  by (simp add: csv_df_def)

lemma file_access_run_platform:
  assumes "platform_env w n" "run w file_access = Inr w'"
  obtains s4 st4 h rs d6 ivals s7 i s9 t P s11 w11 w12 where
    "(case mkdirs (dfs w) [] (sample_key n) of None \<Rightarrow> s4 = dfs w \<and> st4 = 1
      | Some s \<Rightarrow> s4 = s \<and> st4 = 0)"
    "is_dir (map_of s4 (sample_key n))" "\<not> is_dir (map_of s4 (csv_key n))"
    "web w sample_url = Some (h # rs)"
    "pd_set_index ''ISIN'' (PandasDF None h rs) = Some d6"
    "pd_index d6 = Some (''ISIN'', ivals)"
    "write_table (AList.update (csv_key n) (File (h # rs)) s4) frames_key
       (''ISIN'' # pd_columns d6) (frames_items ''ISIN'' ivals d6) False = Some s7"
    "position ''ISIN'' h = Some i"
    "write_table s7 (table_key n) h (kv_items i (csv_df (spark_chunk w) (h # rs))) False = Some s9"
    "map_of s9 (table_key n) = Some (Table t)"
    "sql_where w condition (t_schema t) = Some P"
    "write_csv_dir s9 (out_key n)
       (coalesce 1 (map (filter P) (chunks (spark_chunk w) (table_rows t)))) = Some s11"
    "dfs w' = s11" "dfs w11 = s11" "run w (take 12 file_access) = Inr w12"
    "exec_cell w11 fa_cell12 = Inr w12"
    "w' = w12\<lparr>spark_on := False\<rparr>"
    "os_env w12 = os_env w" "web w12 = web w" "sql_where w12 = sql_where w"
    "spark_chunk w12 = spark_chunk w"
    "events w11 = events w @
       [Access Shell ''/User/examples/stocks'', Exit ''mkdir'' st4,
        Access Shell csv_path, Exit ''curl'' 0, Access Pandas csv_path,
        Access Frames ''examples/stocks/stocks_example_tab'',
        Access Spark (path_join (url_dir n) ''stocks_example.csv''),
        Displayed (take 20 (concat (sp_parts (csv_df (spark_chunk w) (h # rs))))),
        Access Spark (path_join (url_dir n) ''stocks_tab_spark''),
        Access Spark (path_join (url_dir n) ''stocks_tab_spark''),
        Access Spark (path_join (url_dir n) ''stocks_high_volume.csv'')]"
proof -
  from assms(1) have n: "simple n" and hu: "os_env w ''V3IO_HOME_URL'' = Some (''v3io://users/'' @ n)"
    by (simp_all add: platform_env_def)
  have x: "simple ''stocks_example.csv''" "simple ''stocks_tab_spark''"
    "simple ''stocks_high_volume.csv''"
    by (simp_all add: simple_def)
  from assms(2) obtain u sd s4 st4 k c h rs d6 ivals s7 k8 ls k9 i s9 t P k11 s11 w11 w12 where f:
    "os_env w ''V3IO_HOME_URL'' = Some u"
    "sd = path_join u ''examples/stocks''"
    "(case resolve_local w ''/User/examples/stocks'' of None \<Rightarrow> s4 = dfs w \<and> st4 = 1
      | Some k4 \<Rightarrow> (case mkdirs (dfs w) [] k4 of None \<Rightarrow> s4 = dfs w \<and> st4 = 1
          | Some s \<Rightarrow> s4 = s \<and> st4 = 0))"
    "resolve_local w csv_path = Some k" "k \<noteq> []"
    "is_dir (map_of s4 (butlast k))" "\<not> is_dir (map_of s4 k)"
    "web w sample_url = Some c" "c = h # rs"
    "pd_set_index ''ISIN'' (PandasDF None h rs) = Some d6"
    "pd_index d6 = Some (''ISIN'', ivals)"
    "write_table (AList.update k (File c) s4)
       [''users'', ''examples'', ''stocks'', ''stocks_example_tab'']
       (''ISIN'' # pd_columns d6) (frames_items ''ISIN'' ivals d6) False = Some s7"
    "resolve_url (path_join sd ''stocks_example.csv'') = Some k8"
    "map_of s7 k8 = Some (File ls)"
    "resolve_url (path_join sd ''stocks_tab_spark'') = Some k9"
    "position ''ISIN'' (sp_columns (csv_df (spark_chunk w) ls)) = Some i"
    "write_table s7 k9 (sp_columns (csv_df (spark_chunk w) ls))
       (kv_items i (csv_df (spark_chunk w) ls)) False = Some s9"
    "map_of s9 k9 = Some (Table t)"
    "sql_where w condition (t_schema t) = Some P"
    "resolve_url (path_join sd ''stocks_high_volume.csv'') = Some k11"
    "write_csv_dir s9 k11
       (coalesce 1 (map (filter P) (chunks (spark_chunk w) (table_rows t)))) = Some s11"
    "dfs w11 = s11" "run w (take 12 file_access) = Inr w12"
    "exec_cell w11 fa_cell12 = Inr w12" "dfs w12 = s11"
    "w' = w12\<lparr>spark_on := False\<rparr>"
    "os_env w12 = os_env w" "web w12 = web w" "sql_where w12 = sql_where w"
    "spark_chunk w12 = spark_chunk w"
    "events w11 = events w @
       [Access Shell ''/User/examples/stocks'', Exit ''mkdir'' st4,
        Access Shell csv_path, Exit ''curl'' 0, Access Pandas csv_path,
        Access Frames ''examples/stocks/stocks_example_tab'',
        Access Spark (path_join sd ''stocks_example.csv''),
        Displayed (take 20 (concat (sp_parts (csv_df (spark_chunk w) ls)))),
        Access Spark (path_join sd ''stocks_tab_spark''),
        Access Spark (path_join sd ''stocks_tab_spark''),
        Access Spark (path_join sd ''stocks_high_volume.csv'')]"
    by (rule file_access_run)
  from f(1) hu have u: "u = ''v3io://users/'' @ n" by simp
  have sd: "sd = url_dir n" unfolding f(2) u using n by (rule url_dir_join)
  have k: "k = csv_key n" using f(4) resolve_local_sample(3) [OF assms(1)] by (simp add: csv_key_def)
  have k8: "k8 = csv_key n" using f(13) resolve_url_sample [OF n x(1)] by (simp add: sd csv_key_def)
  have k9: "k9 = table_key n" using f(15) resolve_url_sample [OF n x(2)] by (simp add: sd table_key_def)
  have k11: "k11 = out_key n" using f(20) resolve_url_sample [OF n x(3)] by (simp add: sd out_key_def)
  have c4: "(case mkdirs (dfs w) [] (sample_key n) of None \<Rightarrow> s4 = dfs w \<and> st4 = 1
      | Some s \<Rightarrow> s4 = s \<and> st4 = 0)"
    using f(3) by (simp add: resolve_local_sample(1) [OF assms(1)])
  have "map_of (AList.update k (File c) s4) (csv_key n) = Some (File c)" by (simp add: k)
  with f(12) have "map_of s7 (csv_key n) = Some (File c)"
    by (rule write_table_keeps) (simp add: key_defs)
  with f(14) have ls: "ls = h # rs" by (simp add: k8 f(9))
  have bl: "butlast (csv_key n) = sample_key n" by (simp add: csv_key_def)
  show thesis
  proof (rule that [of s4 st4 h rs d6 ivals s7 i s9 t P s11 w11 w12])
    show "case mkdirs (dfs w) [] (sample_key n) of None \<Rightarrow> s4 = dfs w \<and> st4 = 1
      | Some s \<Rightarrow> s4 = s \<and> st4 = 0" by (rule c4)
    show "is_dir (map_of s4 (sample_key n))" using f(6) by (simp add: k bl)
    show "\<not> is_dir (map_of s4 (csv_key n))" using f(7) by (simp add: k)
    show "web w sample_url = Some (h # rs)" using f(8,9) by simp
    show "pd_set_index ''ISIN'' (PandasDF None h rs) = Some d6" by (rule f(10))
    show "pd_index d6 = Some (''ISIN'', ivals)" by (rule f(11))
    show "write_table (AList.update (csv_key n) (File (h # rs)) s4) frames_key
       (''ISIN'' # pd_columns d6) (frames_items ''ISIN'' ivals d6) False = Some s7"
      using f(12) by (simp add: k f(9) frames_key_def)
    show "position ''ISIN'' h = Some i" using f(16) by (simp add: ls csv_df_Cons)
    show "write_table s7 (table_key n) h (kv_items i (csv_df (spark_chunk w) (h # rs))) False = Some s9"
      using f(17) by (simp add: ls k9 csv_df_Cons)
    show "map_of s9 (table_key n) = Some (Table t)" using f(18) by (simp add: k9)
    show "sql_where w condition (t_schema t) = Some P" by (rule f(19))
    show "write_csv_dir s9 (out_key n)
       (coalesce 1 (map (filter P) (chunks (spark_chunk w) (table_rows t)))) = Some s11"
      using f(21) by (simp add: k11)
    show "dfs w' = s11" by (simp add: f(26) f(25))
    show "dfs w11 = s11" by (rule f(22))
    show "run w (take 12 file_access) = Inr w12" by (rule f(23))
    show "exec_cell w11 fa_cell12 = Inr w12" by (rule f(24))
    show "w' = w12\<lparr>spark_on := False\<rparr>" by (rule f(26))
    show "os_env w12 = os_env w" "web w12 = web w" "sql_where w12 = sql_where w"
      "spark_chunk w12 = spark_chunk w" by (rule f(27) f(28) f(29) f(30))+
    show "events w11 = events w @
       [Access Shell ''/User/examples/stocks'', Exit ''mkdir'' st4,
        Access Shell csv_path, Exit ''curl'' 0, Access Pandas csv_path,
        Access Frames ''examples/stocks/stocks_example_tab'',
        Access Spark (path_join (url_dir n) ''stocks_example.csv''),
        Displayed (take 20 (concat (sp_parts (csv_df (spark_chunk w) (h # rs))))),
        Access Spark (path_join (url_dir n) ''stocks_tab_spark''),
        Access Spark (path_join (url_dir n) ''stocks_tab_spark''),
        Access Spark (path_join (url_dir n) ''stocks_high_volume.csv'')]"
      using f(31) by (simp only: sd ls)
  qed
qed


lemma cell5_intro:
  assumes "resolve_local w csv_path = Some k" "k \<noteq> []"
    "is_dir (map_of (dfs w) (butlast k))" "\<not> is_dir (map_of (dfs w) k)"
    "web w sample_url = Some c"
  shows "exec_cell w fa_cell5 =
    Inr (emit (Exit ''curl'' 0)
           ((emit (Access Shell csv_path) w)\<lparr>dfs := AList.update k (File c) (dfs w)\<rparr>))"
  using assms
  by (simp add: fa_cell5_def command_def open_write_def csv_path_def sample_url_def)

lemma cell6_intro:
  assumes "kernel w sd" "resolve_local w csv_path = Some k"
    "map_of (dfs w) k = Some (File (h # rs))"
    "pd_set_index ''ISIN'' (PandasDF None h rs) = Some d"
  shows "exec_cell w fa_cell6 =
    Inr ((emit (Access Pandas csv_path) w)\<lparr>py_env := (py_env w)(''df'' \<mapsto> VPandas d)\<rparr>)"
  using assms
  by (simp add: fa_cell6_def lib_defs kernel_def pd_read_csv_def)

lemma cell7_intro:
  assumes "kernel w sd" "py_env w ''df'' = Some (VPandas d)"
    "pd_index d = Some (iname, ivals)"
    "write_table (dfs w) [''users'', ''examples'', ''stocks'', ''stocks_example_tab'']
       (iname # pd_columns d) (frames_items iname ivals d) False = Some s"
  shows "exec_cell w fa_cell7 =
    Inr ((emit (Access Frames ''examples/stocks/stocks_example_tab'') w)
            \<lparr>py_env := (py_env w)(''nosql_table'' \<mapsto> VStr ''examples/stocks/stocks_example_tab''),
             dfs := s\<rparr>)"
  using assms
  by (simp add: fa_cell7_def lib_defs kernel_def components_def)

lemma cell8_intro:
  assumes "kernel w sd" "resolve_url (path_join sd ''stocks_example.csv'') = Some k"
    "map_of (dfs w) k = Some (File ls)"
  shows "exec_cell w fa_cell8 =
    Inr ((emit (Displayed (take 20 (concat (sp_parts (csv_df (spark_chunk w) ls)))))
            (emit (Access Spark (path_join sd ''stocks_example.csv'')) w))
          \<lparr>py_env := (py_env w)
             (''SparkSession'' \<mapsto> VModule ''pyspark.sql.SparkSession'', ''spark'' \<mapsto> VSession,
              ''df'' \<mapsto> VSpark (csv_df (spark_chunk w) ls)),
           spark_on := True\<rparr>)"
  using assms
  by (cases ls) (simp_all add: fa_cell8_def lib_defs kernel_def spark_read_def csv_df_def)

lemma cell9_intro:
  assumes "kernel w sd" "py_env w ''df'' = Some (VSpark d)" "spark_on w"
    "resolve_url (path_join sd ''stocks_tab_spark'') = Some k"
    "position ''ISIN'' (sp_columns d) = Some i"
    "write_table (dfs w) k (sp_columns d) (kv_items i d) False = Some s"
  shows "exec_cell w fa_cell9 =
    Inr ((emit (Access Spark (path_join sd ''stocks_tab_spark'')) w)\<lparr>dfs := s\<rparr>)"
  using assms
  by (simp add: fa_cell9_def lib_defs kernel_def spark_write_def kv_format_def kv_items_def)

lemma cell10_intro:
  assumes "kernel w sd" "py_env w ''spark'' = Some VSession" "spark_on w"
    "resolve_url (path_join sd ''stocks_tab_spark'') = Some k"
    "map_of (dfs w) k = Some (Table t)"
    "sql_where w condition (t_schema t) = Some P"
  shows "exec_cell w fa_cell10 =
    Inr ((emit (Access Spark (path_join sd ''stocks_tab_spark'')) w)
          \<lparr>py_env := (py_env w)
             (''myDF2'' \<mapsto> VSpark (SparkDF (t_schema t)
                (map (filter P) (chunks (spark_chunk w) (table_rows t)))))\<rparr>)"
  using assms
  by (simp add: fa_cell10_def lib_defs kernel_def spark_read_def kv_format_def condition_def)

lemma cell11_intro:
  assumes "kernel w sd" "py_env w ''myDF2'' = Some (VSpark d)" "spark_on w"
    "resolve_url (path_join sd ''stocks_high_volume.csv'') = Some k"
    "write_csv_dir (dfs w) k (coalesce 1 (sp_parts d)) = Some s"
  shows "exec_cell w fa_cell11 =
    Inr ((emit (Access Spark (path_join sd ''stocks_high_volume.csv'')) w)\<lparr>dfs := s\<rparr>)"
  using assms
  by (simp add: fa_cell11_def lib_defs kernel_def spark_write_def kv_format_def)

lemma mkdirs_other:
  assumes "mkdirs s [] k = Some s'" "\<not> beneath p k"
  shows "map_of s' p = map_of s p"
proof (cases "map_of s p")
  case None
  with assms(1) have "map_of s' p = None \<or>
      (map_of s' p = Some Dir \<and> (\<exists>j. 0 < j \<and> j \<le> length k \<and> p = [] @ take j k))"
    by (rule mkdirs_adds)
  moreover have "p \<noteq> take j k" for j
  proof
    assume "p = take j k"
    then have "take (length p) k = p" by (cases "length k \<le> j") (simp_all add: min_def)
    with assms(2) show False by (simp add: beneath_def)
  qed
  ultimately show ?thesis using None by auto
next
  case (Some v)
  with assms(1) have "map_of s' p = Some v" by (rule mkdirs_keeps)
  with Some show ?thesis by simp
qed

lemma write_table_ok:
  assumes "clear_path s [] (butlast k)" "\<forall>c. map_of s k \<noteq> Some (File c)" "k \<noteq> []"
  shows "\<exists>s'. write_table s k cols its replace = Some s'"
proof -
  from assms(1) obtain s1 where s1: "mkdirs s [] (butlast k) = Some s1"
    using mkdirs_clear [of s "[]" "butlast k"] by auto
  have "\<not> beneath k (butlast k)"
  proof
    assume "beneath k (butlast k)"
    then have "length (butlast k) = length k" by (auto simp add: beneath_def dest: arg_cong [where f = length])
    moreover have "length (butlast k) = length k - 1" by simp
    ultimately show False using assms(3) by (cases k) simp_all
  qed
  with s1 have "map_of s1 k = map_of s k" by (rule mkdirs_other)
  with assms(2) s1 show ?thesis
    by (auto simp add: write_table_def split: option.splits node.splits)
qed

lemma write_table_other:
  assumes "write_table s k cols its replace = Some s'" "\<not> beneath p (butlast k)" "p \<noteq> k"
  shows "map_of s' p = map_of s p"
proof -
  from assms(1) obtain s1 where s1: "mkdirs s [] (butlast k) = Some s1"
    "s' = AList.update k (Table (put_items cols its (table_base (map_of s1 k) replace))) s1"
    by (rule write_table_result)
  from s1(1) assms(2) have "map_of s1 p = map_of s p" by (rule mkdirs_other)
  with s1(2) assms(3) show ?thesis by simp
qed

lemma write_table_parents:
  assumes "write_table s k cols its replace = Some s'" "0 < j" "j < length k"
  shows "is_dir (map_of s' (take j k))"
proof -
  from assms(1) obtain s1 where s1: "mkdirs s [] (butlast k) = Some s1"
    "s' = AList.update k (Table (put_items cols its (table_base (map_of s1 k) replace))) s1"
    by (rule write_table_result)
  have "is_dir (map_of s1 ([] @ take j (butlast k)))"
    using s1(1) assms(2,3) by (intro mkdirs_prefix) simp_all
  moreover have "take j (butlast k) = take j k" using assms(3) by (simp add: take_butlast)
  moreover have "take j k \<noteq> k" using assms(3) by (metis length_take min.absorb2 nat_less_le)
  ultimately show ?thesis using s1(2) by simp
qed

lemma clear_path_prefixes:
  "clear_path s b cs = list_all (\<lambda>p. map_of s p = None \<or> is_dir (map_of s p)) (prefixes_from b cs)"
  by (induction cs arbitrary: b) (auto simp add: is_dir_def split: option.splits)

lemma mkdirs_none_or_dir:
  assumes "mkdirs s b cs = Some s'" "map_of s p = None \<or> is_dir (map_of s p)"
  shows "map_of s' p = None \<or> is_dir (map_of s' p)"
proof (cases "map_of s p")
  case None
  with assms(1) mkdirs_adds [of s b cs s' p] show ?thesis by (auto simp add: is_dir_def)
next
  case (Some v)
  with assms(1) have "map_of s' p = Some v" by (rule mkdirs_keeps)
  with Some assms(2) show ?thesis by simp
qed

lemma mkdirs_prefixes:
  "mkdirs s b cs = Some s' \<Longrightarrow> list_all (\<lambda>p. is_dir (map_of s' p)) (prefixes_from b cs)"
proof (induction cs arbitrary: s b)
  case Nil
  then show ?case by simp
next
  case (Cons c cs)
  have "is_dir (map_of s' (b @ take 1 (c # cs)))"
    using Cons.prems by (intro mkdirs_prefix) simp_all
  moreover have "list_all (\<lambda>p. is_dir (map_of s' p)) (prefixes_from (b @ [c]) cs)"
  proof (cases "map_of s (b @ [c])")
    case None
    with Cons.prems have "mkdirs (AList.update (b @ [c]) Dir s) (b @ [c]) cs = Some s'" by simp
    then show ?thesis by (rule Cons.IH)
  next
    case (Some n)
    with Cons.prems have "mkdirs s (b @ [c]) cs = Some s'" by (simp split: if_splits)
    then show ?thesis by (rule Cons.IH)
  qed
  ultimately show ?case by simp
qed

lemma position_Some:
  "x \<in> set xs \<Longrightarrow> \<exists>i. position x xs = Some i \<and> i < length xs \<and> xs ! i = x"
  by (induction xs) auto

lemma position_SomeD:
  "position x xs = Some i \<Longrightarrow> i < length xs \<and> xs ! i = x \<and> x \<in> set xs"
  by (induction xs arbitrary: i) (auto split: if_splits)

lemma put_items_schema:
  "set (t_schema (put_items cols its t0)) = set (t_schema t0) \<union> set cols"
  by (auto simp add: put_items_def)

lemma write_table_schema:
  assumes "write_table s k cols its replace = Some s'" "map_of s' k = Some (Table t)"
  shows "set cols \<subseteq> set (t_schema t)"
proof -
  from assms(1) obtain s1 where
    "s' = AList.update k (Table (put_items cols its (table_base (map_of s1 k) replace))) s1"
    by (rule write_table_result)
  with assms(2) have "t = put_items cols its (table_base (map_of s1 k) replace)" by simp
  then show ?thesis by (simp add: put_items_schema)
qed

lemma prefixes_from_length:
  "q \<in> set (prefixes_from b cs) \<Longrightarrow> length q \<le> length b + length cs"
proof (induction cs arbitrary: b)
  case Nil
  then show ?case by simp
next
  case (Cons c cs)
  from Cons.prems have "q = b @ [c] \<or> q \<in> set (prefixes_from (b @ [c]) cs)" by simp
  then show ?case
  proof
    assume "q = b @ [c]" then show ?thesis by simp
  next
    assume "q \<in> set (prefixes_from (b @ [c]) cs)"
    then have "length q \<le> length (b @ [c]) + length cs" by (rule Cons.IH)
    then show ?thesis by simp
  qed
qed

lemma prefixes_from_snoc:
  "prefixes_from b (cs @ [c]) = prefixes_from b cs @ [b @ cs @ [c]]"
  by (induction cs arbitrary: b) simp_all

lemma write_csv_dir_ok:
  assumes "list_all (\<lambda>p. is_dir (map_of s p)) (prefixes_from [] (butlast k))" "k \<noteq> []"
  shows "\<exists>s'. write_csv_dir s k parts = Some s'"
proof -
  have k: "k = butlast k @ [last k]" using assms(2) by simp
  have u: "\<not> beneath k p" if "p \<in> set (prefixes_from [] (butlast k))" for p
  proof -
    from prefixes_from_length [OF that] have "length p < length k"
      using assms(2) by (cases k rule: rev_cases) simp_all
    then show ?thesis by (auto simp add: beneath_def dest: arg_cong [where f = length])
  qed
  have "list_all (\<lambda>p. map_of (remove_tree s k) p = None \<or> is_dir (map_of (remove_tree s k) p))
          (prefixes_from [] (butlast k))"
    using assms(1) u by (auto simp add: list_all_iff map_of_remove_tree)
  then have "clear_path (remove_tree s k) [] (butlast k)" by (simp add: clear_path_prefixes)
  moreover from prefixes_from_snoc [of "[]" "butlast k" "last k"] k
  have "prefixes_from [] k = prefixes_from [] (butlast k) @ [k]" by simp
  moreover have "map_of (remove_tree s k) k = None" by (simp add: map_of_remove_tree beneath_def)
  ultimately have "clear_path (remove_tree s k) [] k" by (simp add: clear_path_prefixes)
  then obtain s1 where "mkdirs (remove_tree s k) [] k = Some s1"
    using mkdirs_clear [of "remove_tree s k" "[]" k] by auto
  then show ?thesis by (simp add: write_csv_dir_def)
qed

lemma run_ConsI:
  "exec_cell w c = Inr w1 \<Longrightarrow> run w1 cs = Inr w' \<Longrightarrow> run w (c # cs) = Inr w'"
  by simp

lemma pd_set_index_ok:
  "c \<in> set (pd_columns d) \<Longrightarrow> \<exists>d'. pd_set_index c d = Some d'"
  using position_Some [of c "pd_columns d"] by (auto simp add: pd_set_index_def)

lemma platform_env_frame:
  "os_env w' = os_env w \<Longrightarrow> platform_env w' n = platform_env w n"
  by (simp add: platform_env_def)

lemma resolve_keys:
  "platform_env w n \<Longrightarrow> resolve_local w csv_path = Some (csv_key n)"
  "simple n \<Longrightarrow> resolve_url (path_join (url_dir n) ''stocks_example.csv'') = Some (csv_key n)"
  "simple n \<Longrightarrow> resolve_url (path_join (url_dir n) ''stocks_tab_spark'') = Some (table_key n)"
  "simple n \<Longrightarrow> resolve_url (path_join (url_dir n) ''stocks_high_volume.csv'') = Some (out_key n)"
  using resolve_local_sample(3) [of w n] resolve_url_sample [of n]
  by (simp_all add: csv_key_def table_key_def out_key_def simple_def)

lemma file_access_succeeds:
  assumes "ready w n"
  shows "\<exists>w'. run w file_access = Inr w'"
proof -
  from assms have pe: "platform_env w n"
    and cp: "clear_path (dfs w) [] (sample_key n)"
    and nd: "\<not> is_dir (map_of (dfs w) (csv_key n))"
    and cf: "clear_path (dfs w) [] (butlast frames_key)"
    and ff: "\<not> is_file (map_of (dfs w) frames_key)"
    and tf: "\<not> is_file (map_of (dfs w) (table_key n))"
    and sq: "\<forall>cols. ''TradedVolume'' \<in> set cols \<longrightarrow> sql_where w condition cols \<noteq> None"
    by (simp_all add: ready_def)
  from assms obtain h rs where web: "web w sample_url = Some (h # rs)"
    and isin: "''ISIN'' \<in> set h" and tv: "''TradedVolume'' \<in> set h"
    by (auto simp add: ready_def split: option.splits list.splits)
  from pe have n: "simple n" and hu: "os_env w ''V3IO_HOME_URL'' = Some (''v3io://users/'' @ n)"
    by (simp_all add: platform_env_def)
  have x: "simple ''stocks_example.csv''" "simple ''stocks_tab_spark''"
    "simple ''stocks_high_volume.csv''"
    by (simp_all add: simple_def)
  define sd where "sd = url_dir n"
  define w3 where "w3 = w\<lparr>py_env := (py_env w)
              (''pd'' \<mapsto> VModule ''pandas'', ''v3f'' \<mapsto> VModule ''v3io_frames'',
               ''os'' \<mapsto> VModule ''os'', ''client'' \<mapsto> VClient ''framesd:8081'' ''users'',
               ''sample_dir'' \<mapsto> VStr ''examples/stocks'',
               ''sample_dir_path'' \<mapsto> VStr ''/User/examples/stocks'',
               ''sample_dir_url_path'' \<mapsto> VStr sd)\<rparr>"
  have r3: "run w [fa_cell1, fa_cell2, fa_cell3] = Inr w3"
    unfolding cells123 hu w3_def sd_def using url_dir_join [OF n] by simp
  have k3: "kernel w3 sd" by (simp add: w3_def kernel_def)
  have pe3: "platform_env w3 n" using pe by (simp add: w3_def platform_env_def)
  \<comment> \<open>cell 4\<close>
  from cp obtain s4 where s4: "mkdirs (dfs w) [] (sample_key n) = Some s4"
    using mkdirs_clear [of "dfs w" "[]" "sample_key n"] by auto
  define w4 where "w4 = emit (Exit ''mkdir'' 0)
                     ((emit (Access Shell ''/User/examples/stocks'') w3)\<lparr>dfs := s4\<rparr>)"
  have dw3: "dfs w3 = dfs w" by (simp add: w3_def)
  have e4: "exec_cell w3 fa_cell4 = Inr w4"
    unfolding cell4_exec w4_def by (simp add: resolve_local_sample(1) [OF pe3] dw3 s4)
  have k4: "kernel w4 sd" using k3 by (simp add: w4_def)
  have pe4: "platform_env w4 n" using pe by (simp add: w4_def w3_def platform_env_def)
  have d4: "dfs w4 = s4" by (simp add: w4_def)
  \<comment> \<open>cell 5\<close>
  have p4: "list_all (\<lambda>p. is_dir (map_of s4 p)) (prefixes_from [] (sample_key n))"
    using s4 by (rule mkdirs_prefixes)
  then have sk4: "is_dir (map_of s4 (sample_key n))" by (simp add: sample_key_def)
  have "\<not> beneath (csv_key n) (sample_key n)" by (simp add: beneath_def key_defs)
  with s4 have "map_of s4 (csv_key n) = map_of (dfs w) (csv_key n)" by (rule mkdirs_other)
  with nd have nd4: "\<not> is_dir (map_of s4 (csv_key n))" by simp
  define s5 where "s5 = AList.update (csv_key n) (File (h # rs)) s4"
  define w5 where "w5 = emit (Exit ''curl'' 0) ((emit (Access Shell csv_path) w4)\<lparr>dfs := s5\<rparr>)"
  have bl: "butlast (csv_key n) = sample_key n" "csv_key n \<noteq> []"
    by (simp_all add: csv_key_def)
  have web4: "web w4 = web w" by (simp add: w4_def w3_def)
  have e5: "exec_cell w4 fa_cell5 = Inr w5"
    unfolding w5_def s5_def d4 [symmetric]
    by (rule cell5_intro [OF resolve_keys(1) [OF pe4]])
       (simp_all add: d4 sk4 nd4 bl web4 web)
  have k5: "kernel w5 sd" using k4 by (simp add: w5_def)
  have pe5: "platform_env w5 n" using pe by (simp add: w5_def w4_def w3_def platform_env_def)
  have d5: "dfs w5 = s5" by (simp add: w5_def)
  \<comment> \<open>cell 6\<close>
  from isin obtain d6 where d6: "pd_set_index ''ISIN'' (PandasDF None h rs) = Some d6"
    using pd_set_index_ok [of "''ISIN''" "PandasDF None h rs"] by auto
  then obtain ivals where i6: "pd_index d6 = Some (''ISIN'', ivals)"
    using pd_set_index_index by blast
  define w6 where "w6 = (emit (Access Pandas csv_path) w5)\<lparr>py_env := (py_env w5)(''df'' \<mapsto> VPandas d6)\<rparr>"
  have e6: "exec_cell w5 fa_cell6 = Inr w6"
    unfolding w6_def
    by (rule cell6_intro [OF k5 resolve_keys(1) [OF pe5] _ d6]) (simp add: d5 s5_def)
  have k6: "kernel w6 sd" using k5 by (simp add: w6_def kernel_def)
  have d6': "dfs w6 = s5" by (simp add: w6_def d5)
  \<comment> \<open>cell 7\<close>
  have "clear_path s4 [] (butlast frames_key)"
    using cf mkdirs_none_or_dir [OF s4] by (simp add: clear_path_prefixes list_all_iff)
  then have cf5: "clear_path s5 [] (butlast frames_key)"
    by (simp add: clear_path_prefixes s5_def key_defs)
  have "map_of s5 frames_key = map_of (dfs w) frames_key"
    using mkdirs_other [OF s4, of frames_key] by (simp add: s5_def key_defs beneath_def)
  with ff have ff5: "\<forall>c. map_of s5 frames_key \<noteq> Some (File c)" by auto
  have "\<exists>s'. write_table s5 frames_key
       (''ISIN'' # pd_columns d6) (frames_items ''ISIN'' ivals d6) False = Some s'"
    using cf5 ff5 by (rule write_table_ok) (simp add: frames_key_def)
  then obtain s7 where s7: "write_table s5 frames_key
       (''ISIN'' # pd_columns d6) (frames_items ''ISIN'' ivals d6) False = Some s7" ..
  define w7 where "w7 = (emit (Access Frames ''examples/stocks/stocks_example_tab'') w6)
            \<lparr>py_env := (py_env w6)(''nosql_table'' \<mapsto> VStr ''examples/stocks/stocks_example_tab''),
             dfs := s7\<rparr>"
  have e7: "exec_cell w6 fa_cell7 = Inr w7"
    unfolding w7_def
    by (rule cell7_intro [OF k6 _ i6]) (simp_all add: w6_def d5 s7 [unfolded frames_key_def])
  have k7: "kernel w7 sd" using k6 by (simp add: w7_def kernel_def)
  \<comment> \<open>cell 8\<close>
  have c5: "map_of s5 (csv_key n) = Some (File (h # rs))" by (simp add: s5_def)
  from s7 c5 have c7: "map_of s7 (csv_key n) = Some (File (h # rs))"
    by (rule write_table_keeps) (simp add: key_defs)
  define d8 where "d8 = csv_df (spark_chunk w) (h # rs)"
  define w8 where "w8 = (emit (Displayed (take 20 (concat (sp_parts d8))))
            (emit (Access Spark (path_join sd ''stocks_example.csv'')) w7))
          \<lparr>py_env := (py_env w7)
             (''SparkSession'' \<mapsto> VModule ''pyspark.sql.SparkSession'', ''spark'' \<mapsto> VSession,
              ''df'' \<mapsto> VSpark d8),
           spark_on := True\<rparr>"
  have sc7: "spark_chunk w7 = spark_chunk w" "sql_where w7 = sql_where w"
    by (simp_all add: w7_def w6_def w5_def w4_def w3_def)
  have cols8: "sp_columns d8 = h" by (simp add: d8_def csv_df_Cons)
  have e8: "exec_cell w7 fa_cell8 = Inr w8"
    unfolding w8_def d8_def sc7(1) [symmetric]
    by (rule cell8_intro [OF k7 resolve_keys(2) [OF n, folded sd_def]]) (simp add: w7_def c7)
  have k8: "kernel w8 sd" using k7 by (simp add: w8_def kernel_def)
  \<comment> \<open>cell 9\<close>
  from isin obtain i where i: "position ''ISIN'' h = Some i" using position_Some by fastforce
  have p5: "list_all (\<lambda>p. is_dir (map_of s5 p)) (prefixes_from [] (sample_key n))"
    using p4 by (simp add: s5_def key_defs)
  have keep7: "is_dir (map_of s7 p)" if "is_dir (map_of s5 p)" "p \<noteq> frames_key" for p
  proof -
    from that(1) obtain v where "map_of s5 p = Some v" by (auto simp add: is_dir_def split: option.splits)
    with s7 have "map_of s7 p = map_of s5 p" using that(2) by (simp add: write_table_keeps)
    with that(1) show ?thesis by simp
  qed
  have p7: "list_all (\<lambda>p. is_dir (map_of s7 p)) (prefixes_from [] (sample_key n))"
    using p5 by (simp add: key_defs keep7)
  then have cp7: "clear_path s7 [] (butlast (table_key n))"
    by (simp add: clear_path_prefixes key_defs)
  have "map_of s7 (table_key n) = map_of (dfs w) (table_key n)"
    using write_table_other [OF s7, of "table_key n"] mkdirs_other [OF s4, of "table_key n"]
    by (simp add: s5_def key_defs beneath_def)
  with tf have tf7: "\<forall>c. map_of s7 (table_key n) \<noteq> Some (File c)" by auto
  have "\<exists>s'. write_table s7 (table_key n) (sp_columns d8) (kv_items i d8) False = Some s'"
    using cp7 tf7 by (rule write_table_ok) (simp add: key_defs)
  then obtain s9 where s9: "write_table s7 (table_key n) (sp_columns d8) (kv_items i d8) False = Some s9" ..
  define w9 where "w9 = (emit (Access Spark (path_join sd ''stocks_tab_spark'')) w8)\<lparr>dfs := s9\<rparr>"
  have e9: "exec_cell w8 fa_cell9 = Inr w9"
    unfolding w9_def
    by (rule cell9_intro [OF k8 _ _ resolve_keys(3) [OF n, folded sd_def], of d8 i])
       (simp_all add: w8_def w7_def s9 [unfolded cols8] cols8 i)
  have k9: "kernel w9 sd" using k8 by (simp add: w9_def)
  \<comment> \<open>cell 10\<close>
  from s9 obtain t where t: "map_of s9 (table_key n) = Some (Table t)"
    using write_table_at by blast
  from s9 t have "set (sp_columns d8) \<subseteq> set (t_schema t)" by (rule write_table_schema)
  with tv have "''TradedVolume'' \<in> set (t_schema t)" by (auto simp add: cols8)
  with sq obtain P where P: "sql_where w condition (t_schema t) = Some P" by auto
  define d10 where "d10 = SparkDF (t_schema t) (map (filter P) (chunks (spark_chunk w) (table_rows t)))"
  define w10 where "w10 = (emit (Access Spark (path_join sd ''stocks_tab_spark'')) w9)
          \<lparr>py_env := (py_env w9)(''myDF2'' \<mapsto> VSpark d10)\<rparr>"
  have sc9: "spark_chunk w9 = spark_chunk w" "sql_where w9 = sql_where w"
    by (simp_all add: w9_def w8_def sc7)
  have e10: "exec_cell w9 fa_cell10 = Inr w10"
    unfolding w10_def d10_def sc9(1) [symmetric]
    by (rule cell10_intro [OF k9 _ _ resolve_keys(3) [OF n, folded sd_def]])
       (simp_all add: w9_def w8_def t P sc7)
  have k10: "kernel w10 sd" using k9 by (simp add: w10_def kernel_def)
  \<comment> \<open>cell 11\<close>
  have keep9: "is_dir (map_of s9 p)" if "is_dir (map_of s7 p)" "p \<noteq> table_key n" for p
  proof -
    from that(1) obtain v where "map_of s7 p = Some v" by (auto simp add: is_dir_def split: option.splits)
    with s9 have "map_of s9 p = map_of s7 p" using that(2) by (simp add: write_table_keeps)
    with that(1) show ?thesis by simp
  qed
  have p9: "list_all (\<lambda>p. is_dir (map_of s9 p)) (prefixes_from [] (sample_key n))"
    using p7 by (simp add: key_defs keep9)
  then have "list_all (\<lambda>p. is_dir (map_of s9 p)) (prefixes_from [] (butlast (out_key n)))"
    by (simp add: key_defs)
  then have "\<exists>s'. write_csv_dir s9 (out_key n) (coalesce 1 (sp_parts d10)) = Some s'"
    by (rule write_csv_dir_ok) (simp add: key_defs)
  then obtain s11 where s11: "write_csv_dir s9 (out_key n) (coalesce 1 (sp_parts d10)) = Some s11" ..
  define w11 where "w11 = (emit (Access Spark (path_join sd ''stocks_high_volume.csv'')) w10)\<lparr>dfs := s11\<rparr>"
  have e11: "exec_cell w10 fa_cell11 = Inr w11"
    unfolding w11_def
    by (rule cell11_intro [OF k10 _ _ resolve_keys(4) [OF n, folded sd_def], of d10])
       (use s11 in \<open>simp_all add: w10_def w9_def w8_def\<close>)
  \<comment> \<open>cells 12 to 14\<close>
  obtain w12 where e12: "exec_cell w11 fa_cell12 = Inr w12"
    and sp12: "py_env w12 ''spark'' = Some VSession"
    by (auto simp add: cell12_exec w11_def w10_def w9_def w8_def split: option.splits)
  have e14: "run w12 [fa_cell13, fa_cell14] = Inr (w12\<lparr>spark_on := False\<rparr>)"
    using sp12 by (simp add: cell13_exec cell14_exec)
  have "run w3 [fa_cell4, fa_cell5, fa_cell6, fa_cell7, fa_cell8, fa_cell9, fa_cell10,
                fa_cell11, fa_cell12, fa_cell13, fa_cell14] = Inr (w12\<lparr>spark_on := False\<rparr>)"
    using e4 e5 e6 e7 e8 e9 e10 e11 e12 e14 by simp
  then have "run w ([fa_cell1, fa_cell2, fa_cell3] @
      [fa_cell4, fa_cell5, fa_cell6, fa_cell7, fa_cell8, fa_cell9, fa_cell10,
       fa_cell11, fa_cell12, fa_cell13, fa_cell14]) = Inr (w12\<lparr>spark_on := False\<rparr>)"
    unfolding run_append r3 by simp
  then show ?thesis by (simp add: file_access_def)
qed

text \<open>
  The data-store paths that \<^verbatim>\<open>file-access.ipynb\<close> hands to an API, in order, when the
  environment variable \<^verbatim>\<open>V3IO_HOME_URL\<close> holds \<open>u\<close>.
\<close>

definition notebook_accesses :: "string \<Rightarrow> event list" where
  "notebook_accesses u =
     [Access Shell ''/User/examples/stocks'',
      Access Shell ''/User/examples/stocks/stocks_example.csv'',
      Access Pandas ''/User/examples/stocks/stocks_example.csv'',
      Access Frames ''examples/stocks/stocks_example_tab'',
      Access Spark (path_join (path_join u ''examples/stocks'') ''stocks_example.csv''),
      Access Spark (path_join (path_join u ''examples/stocks'') ''stocks_tab_spark''),
      Access Spark (path_join (path_join u ''examples/stocks'') ''stocks_tab_spark''),
      Access Spark (path_join (path_join u ''examples/stocks'') ''stocks_high_volume.csv''),
      Access Shell ''/User/examples/stocks/'']"

text \<open>
  The claim's reading: Spark is given a path that starts with the home URL, every other
  API a path under \<^verbatim>\<open>/User\<close>.
\<close>

fun addressed_as_claimed :: "string \<Rightarrow> event \<Rightarrow> bool" where
  "addressed_as_claimed u (Access Spark p) = starts_with u p"
| "addressed_as_claimed u (Access a p) = starts_with ''/User'' p"
| "addressed_as_claimed u e = True"

lemma starts_with_join:
  assumes "starts_with u a" "b = [] \<or> hd b \<noteq> CHR ''/''"
  shows "starts_with u (path_join a b)"
proof -
  from assms(1) have "length u \<le> length a"
    by (metis starts_with_def length_take min.cobounded1)
  with assms(1) have "take (length u) (a @ z) = u" for z by (simp add: starts_with_def)
  moreover from assms(2) have "path_join a b = a @ b \<or> path_join a b = a @ ''/'' @ b"
    by (auto simp add: path_join_def)
  ultimately show ?thesis by (auto simp add: starts_with_def)
qed

lemma starts_with_refl: "starts_with u u"
  by (simp add: starts_with_def)

lemma notebook_accesses_addressed: "list_all (addressed u) (notebook_accesses u)"
  by (simp add: notebook_accesses_def starts_with_join starts_with_refl relative_path_def)
     (simp add: starts_with_def)

lemma run_accesses:
  assumes "run w file_access = Inr w'"
  obtains u where "os_env w ''V3IO_HOME_URL'' = Some u"
    "accesses w' = accesses w @ notebook_accesses u"
proof -
  from assms obtain u sd st4 ls w11 w12 where f:
    "os_env w ''V3IO_HOME_URL'' = Some u"
    "sd = path_join u ''examples/stocks''"
    "exec_cell w11 fa_cell12 = Inr w12"
    "w' = w12\<lparr>spark_on := False\<rparr>"
    "events w11 = events w @
       [Access Shell ''/User/examples/stocks'', Exit ''mkdir'' st4,
        Access Shell csv_path, Exit ''curl'' 0, Access Pandas csv_path,
        Access Frames ''examples/stocks/stocks_example_tab'',
        Access Spark (path_join sd ''stocks_example.csv''),
        Displayed (take 20 (concat (sp_parts (csv_df (spark_chunk w) ls)))),
        Access Spark (path_join sd ''stocks_tab_spark''),
        Access Spark (path_join sd ''stocks_tab_spark''),
        Access Spark (path_join sd ''stocks_high_volume.csv'')]"
    by (rule file_access_run) blast
  from f(3) have "accesses w12 = accesses w11 @ [Access Shell ''/User/examples/stocks/'']"
    by (auto simp add: cell12_exec accesses_def split: option.splits if_splits)
  then have "accesses w' = accesses w @ notebook_accesses u"
    by (simp add: f(4) f(5) f(2) accesses_def notebook_accesses_def csv_path_def)
  with f(1) show thesis by (rule that)
qed

text \<open>
  C6, amended: in every run of \<^verbatim>\<open>file-access.ipynb\<close> that completes, the paths handed
  to the APIs are the nine of \<open>notebook_accesses\<close>: each path given to Spark starts with
  the value of \<^verbatim>\<open>V3IO_HOME_URL\<close>, each path given to pandas or to a shell command starts
  with \<^verbatim>\<open>/User\<close>, and the path given to the Frames client is relative to the client's
  container.
\<close>

theorem accesses_by_api:
  assumes "run w file_access = Inr w'"
  shows "\<exists>u. os_env w ''V3IO_HOME_URL'' = Some u \<and>
             accesses w' = accesses w @ notebook_accesses u \<and>
             list_all (addressed u) (notebook_accesses u)"
  using run_accesses [OF assms] notebook_accesses_addressed by metis

lemma position_None: "x \<in> set xs \<Longrightarrow> position x xs \<noteq> None"
  using position_Some [of x xs] by auto

lemma sql_gt_condition: "''TradedVolume'' \<in> set cols \<Longrightarrow> sql_gt condition cols \<noteq> None"
  using position_None [of "''TradedVolume''" cols]
  by (auto simp add: sql_gt_def condition_def parse_nat_def digit_of_def split: option.splits)

lemma demo_platform: "platform_env demo_world ''iguazio''"
  by (simp add: platform_env_def demo_world_def simple_def)

lemma demo_ready: "ready demo_world ''iguazio''"
proof -
  have "\<forall>cols. ''TradedVolume'' \<in> set cols \<longrightarrow> sql_where demo_world condition cols \<noteq> None"
    by (simp add: demo_world_def sql_gt_condition)
  moreover have "clear_path (dfs demo_world) [] (sample_key ''iguazio'')"
    "\<not> is_dir (map_of (dfs demo_world) (csv_key ''iguazio''))"
    "clear_path (dfs demo_world) [] (butlast frames_key)"
    "\<not> is_file (map_of (dfs demo_world) frames_key)"
    "\<not> is_file (map_of (dfs demo_world) (table_key ''iguazio''))"
    by (simp_all add: demo_world_def key_defs is_dir_def)
  moreover have "case web demo_world sample_url of
         Some (h # rs) \<Rightarrow> ''ISIN'' \<in> set h \<and> ''TradedVolume'' \<in> set h
       | _ \<Rightarrow> False"
    by (simp add: demo_world_def sample_csv_def)
  ultimately show ?thesis unfolding ready_def using demo_platform by blast
qed

text \<open>
  C6, as stated: every Spark read or write is given a URL path built from
  \<^verbatim>\<open>V3IO_HOME_URL\<close>, and every other access a path under \<^verbatim>\<open>/User\<close>. On the
  concrete platform the run hands the Frames client the path
  \<^verbatim>\<open>examples/stocks/stocks_example_tab\<close>, which is not under \<^verbatim>\<open>/User\<close>.
\<close>

theorem frames_access_not_under_User:
  "case run demo_world file_access of
     Inl e \<Rightarrow> False
   | Inr w' \<Rightarrow> \<not> list_all (addressed_as_claimed ''v3io://users/iguazio'') (accesses w')"
proof -
  from file_access_succeeds [OF demo_ready] obtain w' where r: "run demo_world file_access = Inr w'" ..
  then obtain u where "os_env demo_world ''V3IO_HOME_URL'' = Some u"
    "accesses w' = accesses demo_world @ notebook_accesses u"
    by (rule run_accesses)
  then have "accesses w' = notebook_accesses ''v3io://users/iguazio''"
    by (simp add: demo_world_def accesses_def)
  then have "\<not> list_all (addressed_as_claimed ''v3io://users/iguazio'') (accesses w')"
    by (simp add: notebook_accesses_def starts_with_def)
  with r show ?thesis by simp
qed

text \<open>The run of the concrete platform, for \<open>accesses_by_api\<close>.\<close>

theorem accesses_by_api_witness:
  "\<exists>w'. run demo_world file_access = Inr w' \<and>
         accesses w' = notebook_accesses ''v3io://users/iguazio'' \<and>
         list_all (addressed ''v3io://users/iguazio'') (notebook_accesses ''v3io://users/iguazio'')"
proof -
  from file_access_succeeds [OF demo_ready] obtain w' where r: "run demo_world file_access = Inr w'" ..
  from accesses_by_api [OF r] obtain u where u: "os_env demo_world ''V3IO_HOME_URL'' = Some u"
    "accesses w' = accesses demo_world @ notebook_accesses u"
    "list_all (addressed u) (notebook_accesses u)" by blast
  from u(1) have "u = ''v3io://users/iguazio''" by (simp add: demo_world_def)
  with u(2,3) r show ?thesis by (auto simp add: demo_world_def accesses_def)
qed




lemma concat_chunks: "concat (chunks m xs) = xs"
  by (induction m xs rule: chunks.induct) simp_all




lemma set_update_subset: "set (AList.update k v s) \<subseteq> insert (k, v) (set s)"
  by (induction s) auto











lemma mkdirs_same:
  assumes "(case mkdirs s [] k of None \<Rightarrow> s4 = s \<and> st4 = (1::nat) | Some s' \<Rightarrow> s4 = s' \<and> st4 = 0)"
    "\<not> beneath p k"
  shows "map_of s4 p = map_of s p"
  using assms mkdirs_other [of s k _ p] by (auto split: option.splits)

lemma write_table_is:
  assumes "write_table s k cols its False = Some s'" "k \<noteq> []"
  shows "map_of s' k = Some (Table (put_items cols its (table_base (map_of s k) False)))"
proof -
  from assms(1) obtain s1 where s1: "mkdirs s [] (butlast k) = Some s1"
    "s' = AList.update k (Table (put_items cols its (table_base (map_of s1 k) False))) s1"
    by (rule write_table_result)
  have "\<not> beneath k (butlast k)"
  proof
    assume "beneath k (butlast k)"
    then have "length (take (length k) (butlast k)) = length k" by (simp only: beneath_def)
    moreover have "length (take (length k) (butlast k)) \<le> length k - 1" by simp
    moreover from assms(2) have "0 < length k" by simp
    ultimately show False by arith
  qed
  with s1(1) have "map_of s1 k = map_of s k" by (rule mkdirs_other)
  with s1(2) show ?thesis by simp
qed

lemma tables_written:
  assumes "platform_env w n" "run w file_access = Inr w'"
  obtains h rs d6 ivals i where
    "web w sample_url = Some (h # rs)"
    "pd_set_index ''ISIN'' (PandasDF None h rs) = Some d6"
    "pd_index d6 = Some (''ISIN'', ivals)"
    "position ''ISIN'' h = Some i"
    "map_of (dfs w') frames_key =
       Some (Table (put_items (''ISIN'' # pd_columns d6) (frames_items ''ISIN'' ivals d6)
                      (table_base (map_of (dfs w) frames_key) False)))"
    "map_of (dfs w') (table_key n) =
       Some (Table (put_items h (kv_items i (csv_df (spark_chunk w) (h # rs)))
                      (table_base (map_of (dfs w) (table_key n)) False)))"
proof -
  from assms obtain s4 st4 h rs d6 ivals s7 i s9 t P s11 where f:
    "(case mkdirs (dfs w) [] (sample_key n) of None \<Rightarrow> s4 = dfs w \<and> st4 = (1::nat)
      | Some s \<Rightarrow> s4 = s \<and> st4 = 0)"
    "web w sample_url = Some (h # rs)"
    "pd_set_index ''ISIN'' (PandasDF None h rs) = Some d6"
    "pd_index d6 = Some (''ISIN'', ivals)"
    "write_table (AList.update (csv_key n) (File (h # rs)) s4) frames_key
       (''ISIN'' # pd_columns d6) (frames_items ''ISIN'' ivals d6) False = Some s7"
    "position ''ISIN'' h = Some i"
    "write_table s7 (table_key n) h (kv_items i (csv_df (spark_chunk w) (h # rs))) False = Some s9"
    "write_csv_dir s9 (out_key n)
       (coalesce 1 (map (filter P) (chunks (spark_chunk w) (table_rows t)))) = Some s11"
    "dfs w' = s11"
    by (rule file_access_run_platform) blast
  let ?s5 = "AList.update (csv_key n) (File (h # rs)) s4"
  have a4: "map_of s4 frames_key = map_of (dfs w) frames_key"
    using f(1) by (rule mkdirs_same) (simp add: key_defs beneath_def)
  have b4: "map_of s4 (table_key n) = map_of (dfs w) (table_key n)"
    using f(1) by (rule mkdirs_same) (simp add: key_defs beneath_def)
  have a5: "map_of ?s5 frames_key = map_of (dfs w) frames_key"
    using a4 by (simp add: key_defs)
  have b5: "map_of ?s5 (table_key n) = map_of (dfs w) (table_key n)"
    using b4 by (simp add: key_defs)
  from f(5) have "map_of s7 frames_key =
      Some (Table (put_items (''ISIN'' # pd_columns d6) (frames_items ''ISIN'' ivals d6)
                      (table_base (map_of ?s5 frames_key) False)))"
    by (rule write_table_is) (simp add: key_defs)
  then have a7: "map_of s7 frames_key =
      Some (Table (put_items (''ISIN'' # pd_columns d6) (frames_items ''ISIN'' ivals d6)
                      (table_base (map_of (dfs w) frames_key) False)))"
    by (simp only: a5)
  from f(5) have "map_of s7 (table_key n) = map_of ?s5 (table_key n)"
    by (rule write_table_other) (simp_all add: key_defs beneath_def)
  with b5 have b7: "map_of s7 (table_key n) = map_of (dfs w) (table_key n)" by simp
  from f(7) a7 have a9: "map_of s9 frames_key =
      Some (Table (put_items (''ISIN'' # pd_columns d6) (frames_items ''ISIN'' ivals d6)
                      (table_base (map_of (dfs w) frames_key) False)))"
    by (rule write_table_keeps) (simp add: key_defs)
  from f(7) have "map_of s9 (table_key n) =
      Some (Table (put_items h (kv_items i (csv_df (spark_chunk w) (h # rs)))
                      (table_base (map_of s7 (table_key n)) False)))"
    by (rule write_table_is) (simp add: key_defs)
  then have b9: "map_of s9 (table_key n) =
      Some (Table (put_items h (kv_items i (csv_df (spark_chunk w) (h # rs)))
                      (table_base (map_of (dfs w) (table_key n)) False)))"
    by (simp only: b7)
  from f(8) a9 have a11: "map_of s11 frames_key =
      Some (Table (put_items (''ISIN'' # pd_columns d6) (frames_items ''ISIN'' ivals d6)
                      (table_base (map_of (dfs w) frames_key) False)))"
    by (rule write_csv_dir_keeps) (simp add: key_defs beneath_def)
  from f(8) b9 have b11: "map_of s11 (table_key n) =
      Some (Table (put_items h (kv_items i (csv_df (spark_chunk w) (h # rs)))
                      (table_base (map_of (dfs w) (table_key n)) False)))"
    by (rule write_csv_dir_keeps) (simp add: key_defs beneath_def)
  show thesis
    by (rule that [OF f(2) f(3) f(4) f(6)]) (simp_all only: f(9) a11 b11)
qed

lemma fold_update_keyed:
  assumes "distinct (map fst al)" "list_all (\<lambda>(k, a). map_of a c = Some k) al"
    "list_all (\<lambda>(k, a). map_of a c = Some k) its"
  shows "distinct (map fst (fold (\<lambda>(k, a). AList.update k a) its al)) \<and>
         list_all (\<lambda>(k, a). map_of a c = Some k) (fold (\<lambda>(k, a). AList.update k a) its al)"
  using assms
proof (induction its arbitrary: al)
  case Nil
  then show ?case by simp
next
  case (Cons x its)
  obtain k a where x: "x = (k, a)" by (cases x)
  from Cons.prems(3) x have ka: "map_of a c = Some k"
    and rest: "list_all (\<lambda>(k, a). map_of a c = Some k) its" by simp_all
  from Cons.prems(1) have d: "distinct (map fst (AList.update k a al))"
    by (rule distinct_update)
  have "list_all (\<lambda>(k, a). map_of a c = Some k) (AList.update k a al)"
    using Cons.prems(2) ka set_update_subset [of k a al]
    by (auto simp add: list_all_iff)
  from Cons.IH [OF d this rest] show ?case by (simp add: x)
qed

lemma put_items_keyed:
  assumes "keyed_by c t0" "list_all (\<lambda>(k, a). map_of a c = Some k) its"
  shows "keyed_by c (put_items cols its t0)"
  using fold_update_keyed [of "t_items t0" c its] assms
  by (simp add: keyed_by_def put_items_def)

lemma table_base_keyed:
  "keyed_node c n \<Longrightarrow> keyed_by c (table_base n False)"
  by (cases "(c, n)" rule: keyed_node.cases) (simp_all add: table_base_def keyed_by_def)

lemma map_of_zip_position:
  "position x xs = Some i \<Longrightarrow> length r = length xs \<Longrightarrow> map_of (zip xs r) x = Some (r ! i)"
proof (induction xs arbitrary: i r)
  case Nil
  then show ?case by simp
next
  case (Cons y ys)
  then show ?case by (cases r) (auto split: if_splits)
qed

lemma frames_items_keyed:
  "list_all (\<lambda>(k, a). map_of a c = Some k) (frames_items c ivals d)"
  by (auto simp add: frames_items_def list_all_iff)

lemma chunks_set: "set (concat (chunks m xs)) = set xs"
  by (simp add: concat_chunks)

lemma kv_items_keyed:
  assumes "position c h = Some i"
  shows "list_all (\<lambda>(k, a). map_of a c = Some k) (kv_items i (csv_df m (h # rs)))"
proof -
  have "map_of (zip h r) c = Some (cell_at i r)" if "length r = length h" for r
    using map_of_zip_position [OF assms that] position_SomeD [OF assms] that
    by (simp add: cell_at_def)
  then show ?thesis
    by (auto simp add: kv_items_def csv_df_Cons list_all_iff concat_chunks fit_def)
qed

lemma column_keyed:
  assumes "keyed_by c t" "c \<in> set (t_schema t)"
  shows "column c t = map fst (t_items t)"
proof -
  from position_Some [OF assms(2)] obtain i where p: "position c (t_schema t) = Some i"
    and i: "i < length (t_schema t)" and c: "t_schema t ! i = c"
    by blast
  have "cell_at i (map (\<lambda>c. case map_of a c of None \<Rightarrow> [] | Some v \<Rightarrow> v) (t_schema t)) = k"
    if "(k, a) \<in> set (t_items t)" for k a
  proof -
    from assms(1) that have "map_of a c = Some k"
      by (auto simp add: keyed_by_def list_all_iff)
    then have "(case map_of a (t_schema t ! i) of None \<Rightarrow> [] | Some v \<Rightarrow> v) = k"
      by (simp only: c option.case)
    with i show ?thesis by (simp add: cell_at_def)
  qed
  then have "map (cell_at i) (table_rows t) = map fst (t_items t)"
    by (simp add: table_rows_def case_prod_beta)
  with p show ?thesis by (simp add: column_def)
qed

lemma keyed_column:
  assumes "keyed_by c t" "c \<in> set (t_schema t)"
  shows "length (column c t) = length (table_rows t) \<and> distinct (column c t)"
  using column_keyed [OF assms] assms(1) by (simp add: keyed_by_def table_rows_def)

text \<open>
  C8: the DataFrame that Frames writes has \<^verbatim>\<open>ISIN\<close> as its index and the Spark write
  passes \<^verbatim>\<open>option("key", "ISIN")\<close>. In every run that completes, provided that a table
  that is already at one of the two paths is keyed by \<^verbatim>\<open>ISIN\<close> (no table there is the
  case of a first run), both tables are keyed by \<^verbatim>\<open>ISIN\<close> afterwards: each row has a value
  in the \<^verbatim>\<open>ISIN\<close> column and no two rows have the same.
\<close>

theorem tables_keyed_by_isin:
  assumes "platform_env w n" "run w file_access = Inr w'"
    "keyed_node ''ISIN'' (map_of (dfs w) frames_key)"
    "keyed_node ''ISIN'' (map_of (dfs w) (table_key n))"
  shows "meth (Name ''df'') ''set_index'' [Str ''ISIN'', Kw ''inplace'' PyTrue]
           \<in> set (cell_exprs fa_cell6) \<and>
         Invoke ''option'' [Str ''key'', Str ''ISIN''] \<in> set (spine (conversions ! 1)) \<and>
         (\<exists>t1 t. map_of (dfs w') frames_key = Some (Table t1) \<and>
                 map_of (dfs w') (table_key n) = Some (Table t) \<and>
                 keyed_by ''ISIN'' t1 \<and> keyed_by ''ISIN'' t \<and>
                 length (column ''ISIN'' t1) = length (table_rows t1) \<and>
                 distinct (column ''ISIN'' t1) \<and>
                 length (column ''ISIN'' t) = length (table_rows t) \<and>
                 distinct (column ''ISIN'' t))"
proof -
  from assms(1,2) obtain h rs d6 ivals i where f:
    "position ''ISIN'' h = Some i"
    "map_of (dfs w') frames_key =
       Some (Table (put_items (''ISIN'' # pd_columns d6) (frames_items ''ISIN'' ivals d6)
                      (table_base (map_of (dfs w) frames_key) False)))"
    "map_of (dfs w') (table_key n) =
       Some (Table (put_items h (kv_items i (csv_df (spark_chunk w) (h # rs)))
                      (table_base (map_of (dfs w) (table_key n)) False)))"
    by (rule tables_written)
  let ?t1 = "put_items (''ISIN'' # pd_columns d6) (frames_items ''ISIN'' ivals d6)
               (table_base (map_of (dfs w) frames_key) False)"
  let ?t = "put_items h (kv_items i (csv_df (spark_chunk w) (h # rs)))
               (table_base (map_of (dfs w) (table_key n)) False)"
  have k1: "keyed_by ''ISIN'' ?t1"
    using table_base_keyed [OF assms(3)] frames_items_keyed by (rule put_items_keyed)
  have k: "keyed_by ''ISIN'' ?t"
    using table_base_keyed [OF assms(4)] kv_items_keyed [OF f(1)] by (rule put_items_keyed)
  have "''ISIN'' \<in> set (t_schema ?t1)" by (simp add: put_items_schema)
  with k1 have c1: "length (column ''ISIN'' ?t1) = length (table_rows ?t1) \<and>
      distinct (column ''ISIN'' ?t1)"
    by (rule keyed_column)
  from f(1) have "''ISIN'' \<in> set (t_schema ?t)"
    using position_SomeD [of "''ISIN''" h i] by (simp add: put_items_schema)
  with k have c: "length (column ''ISIN'' ?t) = length (table_rows ?t) \<and>
      distinct (column ''ISIN'' ?t)"
    by (rule keyed_column)
  have "meth (Name ''df'') ''set_index'' [Str ''ISIN'', Kw ''inplace'' PyTrue]
           \<in> set (cell_exprs fa_cell6)"
    by (simp add: fa_cell6_def)
  moreover have "Invoke ''option'' [Str ''key'', Str ''ISIN''] \<in> set (spine (conversions ! 1))"
    by (simp add: conversions_eq)
  ultimately show ?thesis using f(2,3) k1 k c1 c by blast
qed

text \<open>The first run on the concrete platform, for \<open>tables_keyed_by_isin\<close>.\<close>

theorem tables_keyed_by_isin_witness:
  "\<exists>w' t1 t. run demo_world file_access = Inr w' \<and>
     map_of (dfs w') frames_key = Some (Table t1) \<and>
     map_of (dfs w') (table_key ''iguazio'') = Some (Table t) \<and>
     distinct (column ''ISIN'' t1) \<and> distinct (column ''ISIN'' t)"
proof -
  from file_access_succeeds [OF demo_ready] obtain w' where r: "run demo_world file_access = Inr w'" ..
  have "keyed_node ''ISIN'' (map_of (dfs demo_world) frames_key)"
    "keyed_node ''ISIN'' (map_of (dfs demo_world) (table_key ''iguazio''))"
    by (simp_all add: demo_world_def key_defs)
  from tables_keyed_by_isin [OF demo_platform r this] r show ?thesis by blast
qed



lemma take4: "take 4 file_access = [fa_cell1, fa_cell2, fa_cell3] @ [fa_cell4]"
  by (simp add: file_access_def)

lemma cells1234:
  assumes "platform_env w n"
  shows "run w (take 4 file_access) =
     Inr (let w3 = w\<lparr>py_env := (py_env w)
              (''pd'' \<mapsto> VModule ''pandas'', ''v3f'' \<mapsto> VModule ''v3io_frames'',
               ''os'' \<mapsto> VModule ''os'', ''client'' \<mapsto> VClient ''framesd:8081'' ''users'',
               ''sample_dir'' \<mapsto> VStr ''examples/stocks'',
               ''sample_dir_path'' \<mapsto> VStr ''/User/examples/stocks'',
               ''sample_dir_url_path'' \<mapsto>
                  VStr (path_join (''v3io://users/'' @ n) ''examples/stocks''))\<rparr>
          in case mkdirs (dfs w) [] (sample_key n) of
               None \<Rightarrow> emit (Exit ''mkdir'' 1) (emit (Access Shell ''/User/examples/stocks'') w3)
             | Some s \<Rightarrow>
                 emit (Exit ''mkdir'' 0)
                   ((emit (Access Shell ''/User/examples/stocks'') w3)\<lparr>dfs := s\<rparr>))"
proof -
  from assms have u: "os_env w ''V3IO_HOME_URL'' = Some (''v3io://users/'' @ n)"
    by (simp add: platform_env_def)
  from assms have r: "resolve_local w ''/User/examples/stocks'' = Some (sample_key n)"
    by (rule resolve_local_sample)
  show ?thesis
    unfolding take4 run_append cells123 u
    by (simp add: cell4_exec r Let_def del: append.simps split: option.splits)
qed

lemma cell5_blocked:
  assumes "resolve_local w csv_path = Some k" "\<not> is_dir (map_of (dfs w) (butlast k))"
  shows "exec_cell w fa_cell5 = Inl (CalledProcessError 1)"
  using assms by (simp add: fa_cell5_def open_write_def csv_path_def)

lemma blocked_platform: "platform_env blocked_world ''iguazio''"
  by (simp add: platform_env_def blocked_world_def demo_world_def simple_def)

lemma blocked_mkdirs: "mkdirs (dfs blocked_world) [] (sample_key ''iguazio'') = None"
  by (simp add: blocked_world_def demo_world_def sample_key_def is_dir_def)

lemma blocked_run4:
  "\<exists>w4. run blocked_world (take 4 file_access) = Inr w4 \<and>
     events w4 = [Access Shell ''/User/examples/stocks'', Exit ''mkdir'' 1] \<and>
     dfs w4 = dfs blocked_world \<and> os_env w4 = os_env blocked_world"
  unfolding cells1234 [OF blocked_platform] blocked_mkdirs
  by (simp add: blocked_world_def demo_world_def)

text \<open>
  Between the cell that creates the sample directory and the end of the run, what is in
  the store stays, except at the three paths that the cells write a file or a table to and
  beneath the output path.
\<close>

lemma after_mkdir_kept:
  assumes "platform_env w n" "run w file_access = Inr w'"
  obtains s4 st4 where
    "(case mkdirs (dfs w) [] (sample_key n) of None \<Rightarrow> s4 = dfs w \<and> st4 = (1::nat)
      | Some s \<Rightarrow> s4 = s \<and> st4 = 0)"
    "is_dir (map_of s4 (sample_key n))"
    "\<And>p v. map_of s4 p = Some v \<Longrightarrow> p \<noteq> csv_key n \<Longrightarrow> p \<noteq> frames_key \<Longrightarrow>
       p \<noteq> table_key n \<Longrightarrow> \<not> beneath (out_key n) p \<Longrightarrow> map_of (dfs w') p = Some v"
proof -
  from assms obtain s4 st4 h rs d6 ivals s7 i s9 t P s11 where f:
    "(case mkdirs (dfs w) [] (sample_key n) of None \<Rightarrow> s4 = dfs w \<and> st4 = (1::nat)
      | Some s \<Rightarrow> s4 = s \<and> st4 = 0)"
    "is_dir (map_of s4 (sample_key n))"
    "write_table (AList.update (csv_key n) (File (h # rs)) s4) frames_key
       (''ISIN'' # pd_columns d6) (frames_items ''ISIN'' ivals d6) False = Some s7"
    "write_table s7 (table_key n) h (kv_items i (csv_df (spark_chunk w) (h # rs))) False = Some s9"
    "write_csv_dir s9 (out_key n)
       (coalesce 1 (map (filter P) (chunks (spark_chunk w) (table_rows t)))) = Some s11"
    "dfs w' = s11"
    by (rule file_access_run_platform) blast
  have "map_of (dfs w') p = Some v"
    if p: "map_of s4 p = Some v" "p \<noteq> csv_key n" "p \<noteq> frames_key" "p \<noteq> table_key n"
      "\<not> beneath (out_key n) p" for p v
  proof -
    from p(1,2) have "map_of (AList.update (csv_key n) (File (h # rs)) s4) p = Some v" by simp
    with f(3) have "map_of s7 p = Some v" using p(3) by (rule write_table_keeps)
    with f(4) have "map_of s9 p = Some v" using p(4) by (rule write_table_keeps)
    with f(5) have "map_of s11 p = Some v" using p(5) by (rule write_csv_dir_keeps)
    with f(6) show ?thesis by simp
  qed
  with f(1,2) show thesis by (rule that)
qed

lemma clear_path_sample:
  "clear_path s [] (sample_key n) =
     ((map_of s [''users''] = None \<or> is_dir (map_of s [''users''])) \<and>
      (map_of s [''users'', n] = None \<or> is_dir (map_of s [''users'', n])) \<and>
      (map_of s [''users'', n, ''examples''] = None \<or> is_dir (map_of s [''users'', n, ''examples''])) \<and>
      (map_of s (sample_key n) = None \<or> is_dir (map_of s (sample_key n))))"
  by (auto simp add: sample_key_def split: option.splits)

lemma clear_after_run:
  assumes "platform_env w n" "clear_path (dfs w) [] (sample_key n)" "run w file_access = Inr w'"
  shows "clear_path (dfs w') [] (sample_key n) \<and> is_dir (map_of (dfs w') (sample_key n))"
proof -
  from assms(1,3) obtain s4 st4 where f:
    "(case mkdirs (dfs w) [] (sample_key n) of None \<Rightarrow> s4 = dfs w \<and> st4 = (1::nat)
      | Some s \<Rightarrow> s4 = s \<and> st4 = 0)"
    "\<And>p v. map_of s4 p = Some v \<Longrightarrow> p \<noteq> csv_key n \<Longrightarrow> p \<noteq> frames_key \<Longrightarrow>
       p \<noteq> table_key n \<Longrightarrow> \<not> beneath (out_key n) p \<Longrightarrow> map_of (dfs w') p = Some v"
    by (rule after_mkdir_kept) blast
  from assms(2) have "mkdirs (dfs w) [] (sample_key n) \<noteq> None"
    by (simp only: mkdirs_clear)
  with f(1) have m: "mkdirs (dfs w) [] (sample_key n) = Some s4" by (auto split: option.splits)
  have d: "is_dir (map_of (dfs w') (take j (sample_key n)))" if j: "0 < j" "j \<le> 4" for j
  proof -
    from m j have "is_dir (map_of s4 ([] @ take j (sample_key n)))"
      by (intro mkdirs_prefix) (simp_all add: sample_key_def)
    then obtain v where v: "map_of s4 (take j (sample_key n)) = Some v" "is_dir (Some v)"
      by (auto simp add: is_dir_def split: option.splits)
    have l: "length (take j (sample_key n)) = j" using j by (simp add: sample_key_def)
    have "take j (sample_key n) \<noteq> csv_key n" "take j (sample_key n) \<noteq> table_key n"
      "\<not> beneath (out_key n) (take j (sample_key n))"
      using j l by (auto simp add: key_defs beneath_def dest!: arg_cong [where f = length])
    moreover have "take j (sample_key n) \<noteq> frames_key"
    proof
      assume e: "take j (sample_key n) = frames_key"
      with l have "j = 4" by (simp add: frames_key_def)
      with e show False by (simp add: key_defs)
    qed
    ultimately have "map_of (dfs w') (take j (sample_key n)) = Some v"
      using f(2) [OF v(1)] by blast
    with v(2) show ?thesis by simp
  qed
  from d [of 1] d [of 2] d [of 3] d [of 4] show ?thesis
    by (simp add: clear_path_sample) (simp add: sample_key_def)
qed

lemma file_access_split: "file_access = take 4 file_access @ fa_cell5 # drop 5 file_access"
  by (simp add: file_access_def)

text \<open>
  C9, as stated: in every execution of the cells in order the directory-creation step
  does not fail and the target directory exists when curl writes to it. This fails on a
  platform where \<^verbatim>\<open>/User/examples\<close> is a regular file: \<^verbatim>\<open>mkdir -p\<close> exits with status 1,
  no directory is created, and the download cell raises.
\<close>

theorem mkdir_fails_on_regular_file:
  "platform_env blocked_world ''iguazio'' \<and>
   map_sum id events (run blocked_world (take 4 file_access)) =
     Inr [Access Shell ''/User/examples/stocks'', Exit ''mkdir'' 1] \<and>
   map_sum id (is_dir \<circ> map_of_store (sample_key ''iguazio''))
     (run blocked_world (take 4 file_access)) = Inr False \<and>
   run blocked_world file_access = Inl (CalledProcessError 1)"
proof -
  from blocked_run4 obtain w4 where w4: "run blocked_world (take 4 file_access) = Inr w4"
    "events w4 = [Access Shell ''/User/examples/stocks'', Exit ''mkdir'' 1]"
    "dfs w4 = dfs blocked_world" "os_env w4 = os_env blocked_world"
    by blast
  from blocked_platform have "platform_env w4 ''iguazio''"
    by (simp only: platform_env_frame [OF w4(4)])
  then have k: "resolve_local w4 csv_path = Some (csv_key ''iguazio'')" by (rule resolve_keys)
  have nd: "\<not> is_dir (map_of (dfs w4) (sample_key ''iguazio''))"
    by (simp add: w4(3) blocked_world_def demo_world_def sample_key_def is_dir_def)
  then have "\<not> is_dir (map_of (dfs w4) (butlast (csv_key ''iguazio'')))"
    by (simp add: csv_key_def)
  with k have "exec_cell w4 fa_cell5 = Inl (CalledProcessError 1)" by (rule cell5_blocked)
  then have "run blocked_world (take 4 file_access @ fa_cell5 # drop 5 file_access) =
      Inl (CalledProcessError 1)"
    by (simp add: run_append w4(1))
  then have "run blocked_world file_access = Inl (CalledProcessError 1)"
    by (subst file_access_split)
  with w4(1,2) nd blocked_platform show ?thesis by (simp add: map_of_store_def)
qed

text \<open>
  C9, amended: the cell that runs \<^verbatim>\<open>mkdir -p\<close> comes before the cell that runs curl. On
  a platform where no component of the sample directory's path is a regular file, the
  first four cells run, \<^verbatim>\<open>mkdir\<close> exits with status 0, and the directory that curl's
  target lies in exists afterwards. A run that completes leaves the platform in such a
  state, with the directory in place, so the same holds when the cells are run again.
\<close>

theorem mkdir_succeeds_on_clear_path:
  assumes "platform_env w n" "clear_path (dfs w) [] (sample_key n)"
  shows "notebook_commands file_access = [''mkdir'', ''curl'', ''ls''] \<and>
         (\<exists>w4. run w (take 4 file_access) = Inr w4 \<and>
               events w4 = events w @ [Access Shell ''/User/examples/stocks'', Exit ''mkdir'' 0] \<and>
               resolve_local w4 csv_path = Some (sample_key n @ [''stocks_example.csv'']) \<and>
               is_dir (map_of (dfs w4) (sample_key n))) \<and>
         (\<forall>w'. run w file_access = Inr w' \<longrightarrow>
               platform_env w' n \<and> clear_path (dfs w') [] (sample_key n) \<and>
               is_dir (map_of (dfs w') (sample_key n)))"
proof -
  have c: "notebook_commands file_access = [''mkdir'', ''curl'', ''ls'']"
    by (simp add: notebook_commands_def file_access_def cells_defs)
  from assms(2) have "mkdirs (dfs w) [] (sample_key n) \<noteq> None" by (simp only: mkdirs_clear)
  then obtain s where s: "mkdirs (dfs w) [] (sample_key n) = Some s" by blast
  then have "mkdirs (dfs w) [] ([''users'', n, ''examples''] @ [''stocks'']) = Some s"
    by (simp add: sample_key_def)
  then have "is_dir (map_of s ([] @ [''users'', n, ''examples''] @ [''stocks'']))"
    by (rule mkdirs_last)
  then have d: "is_dir (map_of s (sample_key n))" by (simp add: sample_key_def)
  from assms(1) have r: "resolve_local w csv_path = Some (sample_key n @ [''stocks_example.csv''])"
    by (rule resolve_local_sample)
  have "\<exists>w4. run w (take 4 file_access) = Inr w4 \<and>
               events w4 = events w @ [Access Shell ''/User/examples/stocks'', Exit ''mkdir'' 0] \<and>
               resolve_local w4 csv_path = Some (sample_key n @ [''stocks_example.csv'']) \<and>
               is_dir (map_of (dfs w4) (sample_key n))"
    unfolding cells1234 [OF assms(1)] s by (simp add: d r)
  moreover have "platform_env w' n \<and> clear_path (dfs w') [] (sample_key n) \<and>
               is_dir (map_of (dfs w') (sample_key n))" if run: "run w file_access = Inr w'" for w'
  proof -
    from run obtain w12 where "os_env w12 = os_env w" "w' = w12\<lparr>spark_on := False\<rparr>"
      by (rule file_access_run) blast
    then have "os_env w' = os_env w" by simp
    from assms(1) have "platform_env w' n"
      by (simp only: platform_env_frame [OF \<open>os_env w' = os_env w\<close>])
    with clear_after_run [OF assms run] show ?thesis by simp
  qed
  ultimately show ?thesis using c by blast
qed

text \<open>
  The concrete platform, for \<open>mkdir_succeeds_on_clear_path\<close>: its first run, and the
  first four cells run again after it.
\<close>

theorem mkdir_succeeds_on_clear_path_witness:
  "\<exists>w4 w' w4'. run demo_world (take 4 file_access) = Inr w4 \<and>
     events w4 = [Access Shell ''/User/examples/stocks'', Exit ''mkdir'' 0] \<and>
     run demo_world file_access = Inr w' \<and>
     run w' (take 4 file_access) = Inr w4' \<and>
     events w4' = events w' @ [Access Shell ''/User/examples/stocks'', Exit ''mkdir'' 0]"
proof -
  from demo_ready have cp: "clear_path (dfs demo_world) [] (sample_key ''iguazio'')"
    by (simp add: ready_def)
  note first = mkdir_succeeds_on_clear_path [OF demo_platform cp]
  from first obtain w4 where w4: "run demo_world (take 4 file_access) = Inr w4"
    "events w4 = events demo_world @ [Access Shell ''/User/examples/stocks'', Exit ''mkdir'' 0]"
    by blast
  from file_access_succeeds [OF demo_ready] obtain w' where r: "run demo_world file_access = Inr w'" ..
  with first have again: "platform_env w' ''iguazio''" "clear_path (dfs w') [] (sample_key ''iguazio'')"
    by blast+
  from mkdir_succeeds_on_clear_path [OF again] obtain w4' where
    "run w' (take 4 file_access) = Inr w4'"
    "events w4' = events w' @ [Access Shell ''/User/examples/stocks'', Exit ''mkdir'' 0]"
    by blast
  moreover have "events demo_world = []" by (simp add: demo_world_def)
  ultimately show ?thesis using w4 r by auto
qed
































end
